theory Spec2Isabelle
  imports Main "HOL-Library.AList"
begin

section \<open>Python values, exceptions and objects\<close>

text \<open>
  The command classes of \<^verbatim>\<open>alot/command.py\<close> that the registry \<^verbatim>\<open>COMMANDS\<close> names.
\<close>

datatype cmdclass =
    ExitCommand | OpenThreadCommand | SearchCommand | PromptCommand | RefreshCommand
  | ExternalCommand | EditCommand | PythonShellCommand | BufferCloseCommand
  | BufferFocusCommand | OpenBufferlistCommand | TagListCommand | CommandPromptCommand
  | FlushCommand | ToggleThreadTagCommand | ComposeCommand | RetagPromptCommand
  | RetagCommand | RefineCommand | RefinePromptCommand | ReplyCommand | ForwardCommand
  | BounceMailCommand | FoldMessagesCommand | EnvelopeEditCommand | EnvelopeSetCommand
  | EnvelopeSendCommand | TaglistSelectCommand

text \<open>
  The exceptions that the modelled code can raise. \<open>Raised\<close> stands for any other
  exception, named by its class; it only ever comes out of a collaborator (a callable
  handed in by the caller, \<^verbatim>\<open>encode_header\<close>, \<^verbatim>\<open>dbman.flush\<close>).
\<close>

datatype exn =
    AssertionError | TypeError | UnboundLocalError | IndexError | DatabaseLockedError
  | Raised string

text \<open>
  Python values as far as the dispatch layer looks at them. A callable is represented by
  what calling it with no argument does: it raises or it returns a value. \<open>DocOf c\<close> is
  the \<^verbatim>\<open>__doc__\<close> of class \<open>c\<close>; \<open>Opaque\<close> is an object of a collaborator class
  (a mail, a buffer, a thread), which is neither callable nor false.
\<close>

datatype pyval =
    PNone
  | PBool bool
  | PInt int
  | PStr string
  | PDict "(string \<times> pyval) list"
  | PCallable "exn + pyval"
  | DocOf cmdclass
  | Opaque string

type_synonym pdict = "(string \<times> pyval) list"

text \<open>Truth value of an object, as \<^verbatim>\<open>if x\<close>, \<^verbatim>\<open>not x\<close> and \<^verbatim>\<open>assert x\<close> take it.\<close>

fun truthy :: "pyval \<Rightarrow> bool" where
  "truthy PNone = False"
| "truthy (PBool b) = b"
| "truthy (PInt i) = (i \<noteq> 0)"
| "truthy (PStr s) = (s \<noteq> [])"
| "truthy (PDict d) = (d \<noteq> [])"
| "truthy (PCallable r) = True"
| "truthy (DocOf c) = True"
| "truthy (Opaque s) = True"

definition keys :: "pdict \<Rightarrow> string set" where
  "keys d = fst ` set d"

text \<open>\<^verbatim>\<open>d[k] = v\<close> on a dictionary held as an association list.\<close>

definition setitem :: "string \<Rightarrow> pyval \<Rightarrow> pdict \<Rightarrow> pdict" where
  "setitem k v d = AList.update k v d"

text \<open>The value bound to a keyword parameter that has a default.\<close>

definition kwarg :: "pdict \<Rightarrow> string \<Rightarrow> pyval \<Rightarrow> pyval" where
  "kwarg kw k dflt = (case map_of kw k of None \<Rightarrow> dflt | Some v \<Rightarrow> v)"

text \<open>What is left for \<^verbatim>\<open>**kwargs\<close> once the named parameters \<open>ks\<close> are bound.\<close>

definition remaining :: "string list \<Rightarrow> pdict \<Rightarrow> pdict" where
  "remaining ks kw = filter (\<lambda>kv. fst kv \<notin> set ks) kw"

text \<open>A command object: its class and its instance attributes.\<close>

record command =
  cls :: cmdclass
  attrs :: pdict

section \<open>Collaborators\<close>

text \<open>
  The modules \<^verbatim>\<open>settings\<close>, \<^verbatim>\<open>message\<close> and \<^verbatim>\<open>os.path\<close> are not part of the file;
  what the code reads from them is a parameter:
  \<^item> \<open>aliases\<close>: the section \<^verbatim>\<open>command-aliases\<close> of \<^verbatim>\<open>settings.config\<close>
    (\<^verbatim>\<open>has_option\<close> and \<^verbatim>\<open>get\<close>);
  \<^item> \<open>hooks_get\<close>: \<^verbatim>\<open>settings.hooks.get\<close>;
  \<^item> \<open>spawn_editor\<close>, \<open>editor_cmd\<close>, \<open>flush_retry_timeout\<close>: options of the section
    \<^verbatim>\<open>general\<close>;
  \<^item> \<open>expanduser\<close>, \<open>isfile\<close>: \<^verbatim>\<open>os.path.expanduser\<close>, \<^verbatim>\<open>os.path.isfile\<close>;
  \<^item> \<open>encode_header\<close>: \<^verbatim>\<open>message.encode_header\<close>, which may raise.
\<close>

record config =
  aliases :: "string \<Rightarrow> string option"
  hooks_get :: "string \<Rightarrow> pyval"
  spawn_editor :: bool
  editor_cmd :: string
  flush_retry_timeout :: int
  expanduser :: "string \<Rightarrow> string"
  isfile :: "string \<Rightarrow> bool"
  encode_header :: "pyval \<Rightarrow> pyval \<Rightarrow> exn + pyval"

section \<open>The constructors\<close>

text \<open>
  \<^verbatim>\<open>Command.__init__(self, prehook=None, posthook=None, **ignored)\<close>: every other
  keyword is accepted and dropped.
\<close>

definition Command_init :: "cmdclass \<Rightarrow> pdict \<Rightarrow> pdict \<Rightarrow> pdict" where
  "Command_init c kw self =
     setitem ''help'' (DocOf c)
       (setitem ''undoable'' (PBool False)
         (setitem ''posthook'' (kwarg kw ''posthook'' PNone)
           (setitem ''prehook'' (kwarg kw ''prehook'' PNone) self)))"

text \<open>
  \<^verbatim>\<open>ExternalCommand.__init__(self, commandstring, spawn=False, refocus=True,
  in_thread=False, on_success=None, **kwargs)\<close>. A call without \<^verbatim>\<open>commandstring\<close>
  raises \<^verbatim>\<open>TypeError\<close>.
\<close>

definition ExternalCommand_init :: "cmdclass \<Rightarrow> pdict \<Rightarrow> pdict \<Rightarrow> exn + pdict" where
  "ExternalCommand_init c kw self =
     (case map_of kw ''commandstring'' of
        None \<Rightarrow> Inl TypeError
      | Some commandstring \<Rightarrow>
          Inr (Command_init c
                 (remaining [''commandstring'', ''spawn'', ''refocus'', ''in_thread'',
                             ''on_success''] kw)
                 (setitem ''on_success'' (kwarg kw ''on_success'' PNone)
                   (setitem ''in_thread'' (kwarg kw ''in_thread'' (PBool False))
                     (setitem ''refocus'' (kwarg kw ''refocus'' (PBool True))
                       (setitem ''spawn'' (kwarg kw ''spawn'' (PBool False))
                         (setitem ''commandstring'' commandstring self)))))))"

text \<open>
  \<^verbatim>\<open>EditCommand.__init__(self, path, spawn=None, **kwargs)\<close> passes
  \<^verbatim>\<open>spawn\<close> and \<^verbatim>\<open>in_thread\<close> by keyword and the command line by position, next
  to \<^verbatim>\<open>**kwargs\<close>: a key of \<^verbatim>\<open>kwargs\<close> that repeats one of them is a
  \<^verbatim>\<open>TypeError\<close>, as is a path that is not a string (\<^verbatim>\<open>editor_cmd + ' ' + self.path\<close>).
\<close>

definition EditCommand_init :: "config \<Rightarrow> pdict \<Rightarrow> exn + pdict" where
  "EditCommand_init cfg kw =
     (case map_of kw ''path'' of
        None \<Rightarrow> Inl TypeError
      | Some path \<Rightarrow>
          (let spawn = kwarg kw ''spawn'' PNone;
               kwargs = remaining [''path'', ''spawn''] kw;
               self_spawn = (if spawn \<noteq> PNone then spawn else PBool (spawn_editor cfg));
               self = setitem ''spawn'' self_spawn (setitem ''path'' path [])
           in (case path of
                 PStr p \<Rightarrow>
                   if ''commandstring'' \<in> keys kwargs \<or> ''in_thread'' \<in> keys kwargs
                   then Inl TypeError
                   else ExternalCommand_init EditCommand
                          ([(''commandstring'', PStr (editor_cmd cfg @ '' '' @ p)),
                            (''spawn'', self_spawn), (''in_thread'', self_spawn)] @ kwargs)
                          self
               | _ \<Rightarrow> Inl TypeError)))"

text \<open>
  \<^verbatim>\<open>ToggleThreadTagCommand.__init__(self, tag, thread=None, **kwargs)\<close> starts with
  \<^verbatim>\<open>assert tag\<close> (the interpreter is taken to run with assertions on, its default).
\<close>

definition ToggleThreadTagCommand_init :: "pdict \<Rightarrow> exn + pdict" where
  "ToggleThreadTagCommand_init kw =
     (case map_of kw ''tag'' of
        None \<Rightarrow> Inl TypeError
      | Some tag \<Rightarrow>
          if truthy tag
          then Inr (Command_init ToggleThreadTagCommand (remaining [''tag'', ''thread''] kw)
                      (setitem ''tag'' tag (setitem ''thread'' (kwarg kw ''thread'' PNone) [])))
          else Inl AssertionError)"

text \<open>
  \<^verbatim>\<open>EnvelopeSetCommand.__init__(self, key='', value=u'', replace=True, **kwargs)\<close>
  stores \<^verbatim>\<open>encode_header(key, value)\<close>.
\<close>

definition EnvelopeSetCommand_init :: "config \<Rightarrow> pdict \<Rightarrow> exn + pdict" where
  "EnvelopeSetCommand_init cfg kw =
     (let key = kwarg kw ''key'' (PStr []) in
      case encode_header cfg key (kwarg kw ''value'' (PStr [])) of
        Inl e \<Rightarrow> Inl e
      | Inr encoded \<Rightarrow>
          Inr (Command_init EnvelopeSetCommand (remaining [''key'', ''value'', ''replace''] kw)
                 (setitem ''replace'' (kwarg kw ''replace'' (PBool True))
                   (setitem ''value'' encoded (setitem ''key'' key [])))))"

text \<open>
  \<open>init cfg c kw\<close> is the attribute dictionary that \<^verbatim>\<open>c(**kw)\<close> builds, or the
  exception it raises. Classes that define no \<^verbatim>\<open>__init__\<close> inherit
  \<^verbatim>\<open>Command.__init__\<close>.
\<close>

fun init :: "config \<Rightarrow> cmdclass \<Rightarrow> pdict \<Rightarrow> exn + pdict" where
  "init cfg OpenThreadCommand kw =
     Inr (Command_init OpenThreadCommand (remaining [''thread''] kw)
            (setitem ''thread'' (kwarg kw ''thread'' PNone) []))"
| "init cfg SearchCommand kw =
     (case map_of kw ''query'' of
        None \<Rightarrow> Inl TypeError
      | Some query \<Rightarrow>
          Inr (Command_init SearchCommand (remaining [''query'', ''force_new''] kw)
                 (setitem ''force_new'' (kwarg kw ''force_new'' (PBool False))
                   (setitem ''query'' query []))))"
| "init cfg PromptCommand kw =
     Inr (Command_init PromptCommand (remaining [''startstring''] kw)
            (setitem ''startstring'' (kwarg kw ''startstring'' (PStr [])) []))"
| "init cfg ExternalCommand kw = ExternalCommand_init ExternalCommand kw []"
| "init cfg EditCommand kw = EditCommand_init cfg kw"
| "init cfg BufferCloseCommand kw =
     Inr (Command_init BufferCloseCommand (remaining [''buffer'', ''focussed''] kw)
            (setitem ''focussed'' (kwarg kw ''focussed'' (PBool False))
              (setitem ''buffer'' (kwarg kw ''buffer'' PNone) [])))"
| "init cfg BufferFocusCommand kw =
     Inr (Command_init BufferFocusCommand (remaining [''buffer'', ''offset''] kw)
            (setitem ''offset'' (kwarg kw ''offset'' (PInt 0))
              (setitem ''buffer'' (kwarg kw ''buffer'' PNone) [])))"
| "init cfg OpenBufferlistCommand kw =
     Inr (Command_init OpenBufferlistCommand (remaining [''filtfun''] kw)
            (setitem ''filtfun'' (kwarg kw ''filtfun'' PNone) []))"
| "init cfg TagListCommand kw =
     Inr (Command_init TagListCommand (remaining [''filtfun''] kw)
            (setitem ''filtfun'' (kwarg kw ''filtfun'' PNone) []))"
| "init cfg ToggleThreadTagCommand kw = ToggleThreadTagCommand_init kw"
| "init cfg ComposeCommand kw =
     (let mail = kwarg kw ''mail'' PNone in
      Inr (Command_init ComposeCommand (remaining [''mail''] kw)
             (setitem ''mail''
                (if \<not> truthy mail then Opaque ''MIMEMultipart with one empty text part''
                 else mail) [])))"
| "init cfg RetagCommand kw =
     Inr (Command_init RetagCommand (remaining [''tagsstring''] kw)
            (setitem ''tagsstring'' (kwarg kw ''tagsstring'' (PStr [])) []))"
| "init cfg RefineCommand kw =
     Inr (Command_init RefineCommand (remaining [''query''] kw)
            (setitem ''querystring'' (kwarg kw ''query'' PNone) []))"
| "init cfg ReplyCommand kw =
     Inr (Command_init ReplyCommand (remaining [''groupreply''] kw)
            (setitem ''groupreply'' (kwarg kw ''groupreply'' (PBool False)) []))"
| "init cfg ForwardCommand kw =
     Inr (Command_init ForwardCommand (remaining [''inline''] kw)
            (setitem ''inline'' (kwarg kw ''inline'' (PBool False)) []))"
| "init cfg FoldMessagesCommand kw =
     Inr (Command_init FoldMessagesCommand (remaining [''all'', ''visible''] kw)
            (setitem ''visible'' (kwarg kw ''visible'' (PBool True))
              (setitem ''all'' (kwarg kw ''all'' (PBool False)) [])))"
| "init cfg EnvelopeEditCommand kw =
     (let mail = kwarg kw ''mail'' PNone in
      Inr (Command_init EnvelopeEditCommand (remaining [''mail''] kw)
             (setitem ''openNew'' (PBool (mail \<noteq> PNone)) (setitem ''mail'' mail []))))"
| "init cfg EnvelopeSetCommand kw = EnvelopeSetCommand_init cfg kw"
| "init cfg c kw = Inr (Command_init c kw [])"

definition construct :: "config \<Rightarrow> cmdclass \<Rightarrow> pdict \<Rightarrow> exn + command" where
  "construct cfg c kw =
     (case init cfg c kw of
        Inl e \<Rightarrow> Inl e
      | Inr a \<Rightarrow> Inr \<lparr>cls = c, attrs = a\<rparr>)"

section \<open>The registry\<close>

datatype mode = Global | Search | Thread | Envelope | Bufferlist | Taglist

fun mode_name :: "mode \<Rightarrow> string" where
  "mode_name Global = ''global''"
| "mode_name Search = ''search''"
| "mode_name Thread = ''thread''"
| "mode_name Envelope = ''envelope''"
| "mode_name Bufferlist = ''bufferlist''"
| "mode_name Taglist = ''taglist''"

text \<open>
  \<^verbatim>\<open>COMMANDS\<close>: per mode, the command names with their class and the literal of
  their default parameters.
\<close>

fun COMMANDS :: "mode \<Rightarrow> (string \<times> cmdclass \<times> pdict) list" where
  "COMMANDS Search =
     [(''refine'', RefineCommand, []),
      (''refineprompt'', RefinePromptCommand, []),
      (''openthread'', OpenThreadCommand, []),
      (''toggletag'', ToggleThreadTagCommand, [(''tag'', PStr ''inbox'')]),
      (''retag'', RetagCommand, []),
      (''retagprompt'', RetagPromptCommand, [])]"
| "COMMANDS Envelope =
     [(''send'', EnvelopeSendCommand, []),
      (''reedit'', EnvelopeEditCommand, []),
      (''subject'', EnvelopeSetCommand, [(''key'', PStr ''Subject'')]),
      (''to'', EnvelopeSetCommand, [(''key'', PStr ''To'')])]"
| "COMMANDS Bufferlist =
     [(''closefocussed'', BufferCloseCommand, [(''focussed'', PBool True)]),
      (''openfocussed'', BufferFocusCommand, [])]"
| "COMMANDS Taglist =
     [(''select'', TaglistSelectCommand, [])]"
| "COMMANDS Thread =
     [(''reply'', ReplyCommand, []),
      (''groupreply'', ReplyCommand, [(''groupreply'', PBool True)]),
      (''forward'', ForwardCommand, []),
      (''bounce'', BounceMailCommand, []),
      (''fold'', FoldMessagesCommand, [(''visible'', PBool True)]),
      (''unfold'', FoldMessagesCommand, [(''visible'', PBool False)])]"
| "COMMANDS Global =
     [(''bnext'', BufferFocusCommand, [(''offset'', PInt 1)]),
      (''bprevious'', BufferFocusCommand, [(''offset'', PInt (- 1))]),
      (''bufferlist'', OpenBufferlistCommand, []),
      (''close'', BufferCloseCommand, []),
      (''commandprompt'', CommandPromptCommand, []),
      (''compose'', ComposeCommand, []),
      (''edit'', EditCommand, []),
      (''exit'', ExitCommand, []),
      (''flush'', FlushCommand, []),
      (''prompt'', PromptCommand, []),
      (''pyshell'', PythonShellCommand, []),
      (''refresh'', RefreshCommand, []),
      (''search'', SearchCommand, []),
      (''shellescape'', ExternalCommand, []),
      (''taglist'', TagListCommand, [])]"

text \<open>\<^verbatim>\<open>cmdname in COMMANDS[mode]\<close>\<close>

definition registered :: "mode \<Rightarrow> string \<Rightarrow> bool" where
  "registered m cmdname = (map_of (COMMANDS m) cmdname \<noteq> None)"

section \<open>The store of dictionary objects\<close>

text \<open>
  A Python dictionary is an object: the tuple \<^verbatim>\<open>COMMANDS[mode][cmdname]\<close> holds a
  reference to the dictionary of defaults, and \<^verbatim>\<open>(cmdclass, parms) = ...\<close> binds
  \<^verbatim>\<open>parms\<close> to that same object. Dictionaries therefore live in a store. Every
  literal of the registry is an object of its own, at the address \<open>Default mode cmdname\<close>;
  \<^verbatim>\<open>dict.copy\<close> allocates \<open>New n\<close>. The state also carries the records handed to
  \<^verbatim>\<open>logging\<close>, each as its level, its format string and the arguments of \<^verbatim>\<open>%\<close>.
\<close>

datatype addr = Default mode string | New nat

datatype level = DEBUG | ERROR

record pystate =
  store :: "addr \<Rightarrow> pdict"
  fresh :: nat
  logged :: "(level \<times> string \<times> pyval list) list"

text \<open>The state once the module is loaded.\<close>

definition loaded :: pystate where
  "loaded =
     \<lparr>store = (\<lambda>a. case a of
                  Default m cmdname \<Rightarrow>
                    (case map_of (COMMANDS m) cmdname of None \<Rightarrow> [] | Some (c, d) \<Rightarrow> d)
                | New n \<Rightarrow> []),
      fresh = 0,
      logged = []\<rparr>"

definition logging :: "level \<Rightarrow> string \<Rightarrow> pyval list \<Rightarrow> pystate \<Rightarrow> pystate" where
  "logging lv fmt args st = st\<lparr>logged := logged st @ [(lv, fmt, args)]\<rparr>"

text \<open>\<^verbatim>\<open>parms.copy()\<close>: a new object with the same items.\<close>

definition dict_copy :: "addr \<Rightarrow> pystate \<Rightarrow> addr \<times> pystate" where
  "dict_copy a st =
     (New (fresh st), st\<lparr>store := (store st)(New (fresh st) := store st a),
                         fresh := Suc (fresh st)\<rparr>)"

text \<open>\<^verbatim>\<open>parms[key] = value\<close>, on the object at address \<open>a\<close>.\<close>

definition store_item :: "addr \<Rightarrow> string \<Rightarrow> pyval \<Rightarrow> pystate \<Rightarrow> pystate" where
  "store_item a k v st = st\<lparr>store := (store st)(a := setitem k v (store st a))\<rparr>"

text \<open>\<^verbatim>\<open>parms.update(kwargs)\<close>\<close>

fun dict_update :: "addr \<Rightarrow> pdict \<Rightarrow> pystate \<Rightarrow> pystate" where
  "dict_update a [] st = st"
| "dict_update a ((k, v) # kvs) st = dict_update a kvs (store_item a k v st)"

text \<open>
  The loop \<^verbatim>\<open>for (key, value) in kwargs.items()\<close>: a callable value is called and its
  result stored; an exception it raises ends the loop and the function. The test
  \<^verbatim>\<open>callable(value)\<close> is the case distinction on \<open>PCallable\<close>.
\<close>

fun eval_items :: "addr \<Rightarrow> pdict \<Rightarrow> pystate \<Rightarrow> pystate \<times> (exn + unit)" where
  "eval_items a [] st = (st, Inr ())"
| "eval_items a ((key, value) # kvs) st =
     (case value of
        PCallable r \<Rightarrow>
          (case r of
             Inl e \<Rightarrow> (st, Inl e)
           | Inr v \<Rightarrow> eval_items a kvs (store_item a key v st))
      | _ \<Rightarrow> eval_items a kvs (store_item a key value st))"

section \<open>commandfactory\<close>

text \<open>
  The first statement of \<^verbatim>\<open>commandfactory\<close>: the class and the defaults object of
  \<^verbatim>\<open>cmdname\<close>, from the table of the mode or else from the global one. \<open>None\<close> is the
  third branch, which binds neither variable.
\<close>

definition lookup :: "string \<Rightarrow> mode \<Rightarrow> (cmdclass \<times> addr) option" where
  "lookup cmdname m =
     (case map_of (COMMANDS m) cmdname of
        Some (cmdclass, d) \<Rightarrow> Some (cmdclass, Default m cmdname)
      | None \<Rightarrow>
          (case map_of (COMMANDS Global) cmdname of
             Some (cmdclass, d) \<Rightarrow> Some (cmdclass, Default Global cmdname)
           | None \<Rightarrow> None))"

text \<open>
  \<^verbatim>\<open>commandfactory\<close> up to its last line: the class and the address of the parameter
  dictionary that the constructor is about to receive. In the third branch the function
  logs and goes on to \<^verbatim>\<open>parms.copy()\<close>, where the unbound local \<^verbatim>\<open>parms\<close> raises
  \<^verbatim>\<open>UnboundLocalError\<close>.
\<close>

definition merged_parms ::
  "config \<Rightarrow> string \<Rightarrow> mode \<Rightarrow> pdict \<Rightarrow> pystate \<Rightarrow> pystate \<times> (exn + cmdclass \<times> addr)" where
  "merged_parms cfg cmdname m kwargs st =
     (case lookup cmdname m of
        None \<Rightarrow>
          (logging ERROR ''there is no command %s'' [PStr cmdname] st, Inl UnboundLocalError)
      | Some (cmdclass, registry_parms) \<Rightarrow>
          (case dict_copy registry_parms st of
             (parms, st1) \<Rightarrow>
               (case eval_items parms kwargs (dict_update parms kwargs st1) of
                  (st2, Inl e) \<Rightarrow> (st2, Inl e)
                | (st2, Inr u) \<Rightarrow>
                    (let st3 = store_item parms ''prehook''
                                 (hooks_get cfg (''pre_'' @ cmdname)) st2;
                         st4 = store_item parms ''posthook''
                                 (hooks_get cfg (''post_'' @ cmdname)) st3;
                         st5 = logging DEBUG ''cmd parms %s'' [PDict (store st4 parms)] st4
                     in (st5, Inr (cmdclass, parms))))))"

definition commandfactory ::
  "config \<Rightarrow> string \<Rightarrow> mode \<Rightarrow> pdict \<Rightarrow> pystate \<Rightarrow> pystate \<times> (exn + command)" where
  "commandfactory cfg cmdname m kwargs st =
     (case merged_parms cfg cmdname m kwargs st of
        (st', Inl e) \<Rightarrow> (st', Inl e)
      | (st', Inr (cmdclass, parms)) \<Rightarrow> (st', construct cfg cmdclass (store st' parms)))"

section \<open>interpret_commandline\<close>

text \<open>The string methods the interpreter uses, on byte strings.\<close>

definition is_space :: "char \<Rightarrow> bool" where
  "is_space c = (c \<in> set [CHR '' '', CHR 0x09, CHR 0x0A, CHR 0x0B, CHR 0x0C, CHR 0x0D])"

text \<open>\<^verbatim>\<open>s.strip()\<close>\<close>

definition strip :: "string \<Rightarrow> string" where
  "strip s = rev (dropWhile is_space (rev (dropWhile is_space s)))"

text \<open>\<^verbatim>\<open>s.split(' ', 1)\<close>: cut at the first blank, if there is one.\<close>

definition split_once :: "string \<Rightarrow> string list" where
  "split_once s =
     (case dropWhile (\<lambda>c. c \<noteq> CHR '' '') s of
        [] \<Rightarrow> [s]
      | blank # rest \<Rightarrow> [takeWhile (\<lambda>c. c \<noteq> CHR '' '') s, rest])"

text \<open>\<^verbatim>\<open>s.startswith(p)\<close>\<close>

definition startswith :: "string \<Rightarrow> string \<Rightarrow> bool" where
  "startswith s p = (take (length p) s = p)"

text \<open>
  \<^verbatim>\<open>args = cmdline.strip().split(' ', 1)\<close>, \<^verbatim>\<open>cmd = args[0]\<close> and
  \<^verbatim>\<open>params = args[1]\<close> if there is one, else the empty string.
\<close>

definition parse_cmdline :: "string \<Rightarrow> exn + string \<times> string" where
  "parse_cmdline cmdline =
     (case split_once (strip cmdline) of
        [] \<Rightarrow> Inl IndexError
      | cmd # others \<Rightarrow> Inr (cmd, (case others of [] \<Rightarrow> [] | params # x \<Rightarrow> params)))"

text \<open>The block \<^verbatim>\<open># unfold aliases\<close>.\<close>

definition unfold_alias :: "config \<Rightarrow> string \<Rightarrow> string" where
  "unfold_alias cfg cmd = (case aliases cfg cmd of None \<Rightarrow> cmd | Some expansion \<Rightarrow> expansion)"

text \<open>The block \<^verbatim>\<open># allow to shellescape without a space after '!'\<close>.\<close>

definition shellescape_shorthand :: "string \<times> string \<Rightarrow> string \<times> string" where
  "shellescape_shorthand cp =
     (case cp of (cmd, params) \<Rightarrow>
        if startswith cmd ''!'' then (''shellescape'', drop 1 cmd @ '' '' @ params)
        else (cmd, params))"

text \<open>The names listed in the last \<^verbatim>\<open>elif\<close> of the chain.\<close>

definition no_parameter_commands :: "string list" where
  "no_parameter_commands =
     [''exit'', ''flush'', ''pyshell'', ''taglist'', ''close'',
      ''compose'', ''openfocussed'', ''closefocussed'',
      ''bnext'', ''bprevious'', ''retag'', ''refresh'',
      ''bufferlist'', ''refineprompt'', ''reply'',
      ''forward'', ''groupreply'', ''bounce'', ''openthread'',
      ''send'', ''reedit'', ''select'', ''retagprompt'']"

text \<open>\<^verbatim>\<open>return commandfactory(cmd, mode=mode, **kwargs)\<close>\<close>

definition return_command ::
  "config \<Rightarrow> string \<Rightarrow> mode \<Rightarrow> pdict \<Rightarrow> pystate \<Rightarrow> pystate \<times> (exn + command option)" where
  "return_command cfg cmd m kwargs st =
     (case commandfactory cfg cmd m kwargs st of
        (st', Inl e) \<Rightarrow> (st', Inl e)
      | (st', Inr c) \<Rightarrow> (st', Inr (Some c)))"

text \<open>
  The rest of \<^verbatim>\<open>interpret_commandline\<close>, from
  \<^verbatim>\<open># check if this command makes sense in current mode\<close> on. The branch of
  \<^verbatim>\<open>edit\<close> returns nothing when the path names no file: the function then runs off
  its end.
\<close>

definition dispatch ::
  "config \<Rightarrow> string \<Rightarrow> string \<Rightarrow> mode \<Rightarrow> pystate \<Rightarrow> pystate \<times> (exn + command option)" where
  "dispatch cfg cmd params m st =
     (if \<not> registered m cmd \<and> \<not> registered Global cmd
      then (logging DEBUG ''unknown command: %s'' [PStr cmd] st, Inr None)
      else if cmd = ''search'' then return_command cfg cmd m [(''query'', PStr params)] st
      else if cmd = ''compose''
        then return_command cfg cmd m [(''headers'', PDict [(''To'', PStr params)])] st
      else if cmd = ''prompt'' then return_command cfg cmd m [(''startstring'', PStr params)] st
      else if cmd = ''refine'' then return_command cfg cmd m [(''query'', PStr params)] st
      else if cmd = ''retag'' then return_command cfg cmd m [(''tagsstring'', PStr params)] st
      else if cmd = ''subject''
        then return_command cfg cmd m [(''key'', PStr ''Subject''), (''value'', PStr params)] st
      else if cmd = ''shellescape''
        then return_command cfg cmd m [(''commandstring'', PStr params)] st
      else if cmd = ''to''
        then return_command cfg cmd m [(''key'', PStr ''To''), (''value'', PStr params)] st
      else if cmd = ''toggletag'' then return_command cfg cmd m [(''tag'', PStr params)] st
      else if cmd = ''fold''
        then return_command cfg cmd m [(''all'', PBool (params = ''all''))] st
      else if cmd = ''unfold''
        then return_command cfg cmd m [(''all'', PBool (params = ''all''))] st
      else if cmd = ''edit''
        then (let filepath = expanduser cfg params in
              if isfile cfg filepath
              then return_command cfg cmd m [(''path'', PStr filepath)] st
              else (st, Inr None))
      else if params = [] \<and> cmd \<in> set no_parameter_commands
        then return_command cfg cmd m [] st
      else (st, Inr None))"

definition interpret_commandline ::
  "config \<Rightarrow> string \<Rightarrow> mode \<Rightarrow> pystate \<Rightarrow> pystate \<times> (exn + command option)" where
  \<open>interpret_commandline cfg cmdline m st =
     (if cmdline = [] then (st, Inr None)
      else
        (let st1 = logging DEBUG ''mode:%s got commandline "%s"''
                     [PStr (mode_name m), PStr cmdline] st
         in case parse_cmdline cmdline of
              Inl e \<Rightarrow> (st1, Inl e)
            | Inr (cmd, params) \<Rightarrow>
                (case shellescape_shorthand (unfold_alias cfg cmd, params) of
                   (cmd', params') \<Rightarrow> dispatch cfg cmd' params' m st1)))\<close>

section \<open>FlushCommand.apply\<close>

text \<open>
  Modelled from the spec: the part of the user interface that
  \<^verbatim>\<open>FlushCommand.apply\<close> touches (\<^verbatim>\<open>ui.dbman\<close>, \<^verbatim>\<open>ui.mainloop\<close>,
  \<^verbatim>\<open>ui.notify\<close>, \<^verbatim>\<open>ui.update\<close>), none of which is in the file. The
  specification names "flush pending writes (may raise a locked condition)", "display a
  transient message" and "schedule a delayed callback":
  \<^item> \<open>flush_script\<close>: what the coming calls of \<^verbatim>\<open>ui.dbman.flush()\<close> do, in order:
    \<open>None\<close> commits, \<open>Some e\<close> raises \<open>e\<close>; once the script is used up every
    call commits;
  \<^item> \<open>commits\<close>: the number of calls that have committed;
  \<^item> \<open>alarms\<close>: the callbacks registered with \<^verbatim>\<open>ui.mainloop.set_alarm_in\<close>, each
    with its delay, in the order of registration;
  \<^item> \<open>notifications\<close>: the messages given to \<^verbatim>\<open>ui.notify\<close>;
  \<^item> \<open>updates\<close>: the number of calls of \<^verbatim>\<open>ui.update()\<close>.
  The only callback the file ever registers is the closure \<^verbatim>\<open>f\<close> of
  \<^verbatim>\<open>FlushCommand.apply\<close>, which applies the same command again.
\<close>

datatype callback = ReapplyFlush

record ui =
  flush_script :: "exn option list"
  commits :: nat
  alarms :: "(int \<times> callback) list"
  notifications :: "string list"
  updates :: nat

text \<open>\<^verbatim>\<open>'%d' % n\<close>\<close>

function decimal_nat :: "nat \<Rightarrow> string" where
  "decimal_nat n =
     (if n < 10 then [char_of (48 + n)]
      else decimal_nat (n div 10) @ [char_of (48 + n mod 10)])"
  by pat_completeness auto
termination
  by (relation "measure id") auto

definition decimal :: "int \<Rightarrow> string" where
  "decimal i = (if i < 0 then CHR ''-'' # decimal_nat (nat (- i)) else decimal_nat (nat i))"

text \<open>\<^verbatim>\<open>ui.dbman.flush()\<close>\<close>

definition dbman_flush :: "ui \<Rightarrow> exn + ui" where
  "dbman_flush u =
     (case flush_script u of
        [] \<Rightarrow> Inr (u\<lparr>commits := Suc (commits u)\<rparr>)
      | None # later \<Rightarrow> Inr (u\<lparr>flush_script := later, commits := Suc (commits u)\<rparr>)
      | Some e # later \<Rightarrow> Inl e)"

text \<open>The state in which a raising \<^verbatim>\<open>flush\<close> leaves the store: one attempt is used up.\<close>

definition after_failed_flush :: "ui \<Rightarrow> ui" where
  "after_failed_flush u = u\<lparr>flush_script := tl (flush_script u)\<rparr>"

text \<open>
  \<^verbatim>\<open>FlushCommand.apply(self, ui)\<close>. Only \<^verbatim>\<open>DatabaseLockedError\<close> is caught; any
  other exception of \<^verbatim>\<open>flush\<close> leaves the method.
\<close>

definition FlushCommand_apply :: "config \<Rightarrow> ui \<Rightarrow> exn + ui" where
  "FlushCommand_apply cfg u =
     (case dbman_flush u of
        Inr u' \<Rightarrow> Inr u'
      | Inl e \<Rightarrow>
          if e = DatabaseLockedError
          then (let timeout = flush_retry_timeout cfg;
                    u1 = after_failed_flush u;
                    u2 = u1\<lparr>alarms := alarms u1 @ [(timeout, ReapplyFlush)]\<rparr>;
                    u3 = u2\<lparr>notifications := notifications u2 @
                              [''index locked, will try again in '' @ decimal timeout @ '' secs'']\<rparr>
                in Inr (u3\<lparr>updates := Suc (updates u3)\<rparr>))
          else Inl e)"

text \<open>
  Modelled from the spec: the main loop behind the timer primitive ("schedule a callback
  after N seconds"), which belongs to the terminal library. It calls the callbacks of the pending alarms, the one registered
  first before the others (every alarm of this file has the same delay), until no alarm is
  left. \<open>mainloop cfg k u\<close> fires at most \<open>k\<close> alarms; \<open>None\<close> says that alarms were
  still pending then. An exception of a callback ends the loop.
\<close>

fun mainloop :: "config \<Rightarrow> nat \<Rightarrow> ui \<Rightarrow> (exn + ui) option" where
  "mainloop cfg k u =
     (case alarms u of
        [] \<Rightarrow> Some (Inr u)
      | (delay, ReapplyFlush) # others \<Rightarrow>
          (case k of
             0 \<Rightarrow> None
           | Suc k' \<Rightarrow>
               (case FlushCommand_apply cfg (u\<lparr>alarms := others\<rparr>) of
                  Inl e \<Rightarrow> Some (Inl e)
                | Inr u' \<Rightarrow> mainloop cfg k' u')))"

section \<open>Notions used in the statements\<close>

text \<open>
  What the loop of \<^verbatim>\<open>commandfactory\<close> makes of one call-site value: the result of
  calling it when it is callable, the value itself otherwise.
\<close>

definition outcome :: "pyval \<Rightarrow> exn + pyval" where
  "outcome v = (case v of PCallable r \<Rightarrow> r | _ \<Rightarrow> Inr v)"

text \<open>The same for all items, in their order: the first exception, or every item's outcome.\<close>

fun outcomes :: "pdict \<Rightarrow> exn + pdict" where
  "outcomes [] = Inr []"
| "outcomes ((k, v) # kvs) =
     (case outcome v of
        Inl e \<Rightarrow> Inl e
      | Inr w \<Rightarrow> (case outcomes kvs of Inl e \<Rightarrow> Inl e | Inr ws \<Rightarrow> Inr ((k, w) # ws)))"

text \<open>A sequence of calls of \<^verbatim>\<open>commandfactory\<close>, each on the state the one before left.\<close>

fun resolutions :: "config \<Rightarrow> (string \<times> mode \<times> pdict) list \<Rightarrow> pystate \<Rightarrow> pystate" where
  "resolutions cfg [] st = st"
| "resolutions cfg ((cmdname, m, kwargs) # later) st =
     resolutions cfg later (fst (commandfactory cfg cmdname m kwargs st))"

text \<open>A name that only the global table holds.\<close>

definition only_global :: "string \<Rightarrow> bool" where
  "only_global cmdname =
     (registered Global cmdname \<and>
      list_all (\<lambda>m. \<not> registered m cmdname) [Search, Thread, Envelope, Bufferlist, Taglist])"

text \<open>
  A configuration for the examples: no alias, no hook, no file on disk, and an
  \<^verbatim>\<open>encode_header\<close> that returns its value.
\<close>

definition plain_config :: config where
  "plain_config =
     \<lparr>aliases = (\<lambda>cmd. None), hooks_get = (\<lambda>name. PNone), spawn_editor = False,
      editor_cmd = ''vim'', flush_retry_timeout = 5, expanduser = (\<lambda>path. path),
      isfile = (\<lambda>path. False), encode_header = (\<lambda>key value. Inr value)\<rparr>"

text \<open>
  A state in which a default of the registry is a callable: the dictionary of
  \<^verbatim>\<open>toggletag\<close> binds \<^verbatim>\<open>tag\<close> to a callable that returns \<^verbatim>\<open>'inbox'\<close>.
\<close>

definition deferred_default :: pystate where
  "deferred_default =
     loaded\<lparr>store := (store loaded)
       (Default Search ''toggletag'' := [(''tag'', PCallable (Inr (PStr ''inbox'')))])\<rparr>"

text \<open>
  A configuration with two aliases, the first expanding to the name of the second:
  \<^verbatim>\<open>q = quit\<close> and \<^verbatim>\<open>quit = exit\<close>.
\<close>

definition chained_aliases :: config where
  "chained_aliases =
     plain_config\<lparr>aliases := [''q'' \<mapsto> ''quit'', ''quit'' \<mapsto> ''exit'']\<rparr>"

section \<open>Properties\<close>

subsection \<open>The store\<close>

lemma logging_store [simp]: "store (logging lv fmt args st) = store st"
  by (simp add: logging_def)

lemma store_item_other: "a \<noteq> b \<Longrightarrow> store (store_item a k v st) b = store st b"
  by (simp add: store_item_def)

lemma store_item_same: "store (store_item a k v st) a = setitem k v (store st a)"
  by (simp add: store_item_def)

lemma dict_update_other: "a \<noteq> b \<Longrightarrow> store (dict_update a kvs st) b = store st b"
  by (induction a kvs st rule: dict_update.induct) (simp_all add: store_item_other)

lemma eval_items_other: "a \<noteq> b \<Longrightarrow> store (fst (eval_items a kvs st)) b = store st b"
  by (induction a kvs st rule: eval_items.induct)
     (simp_all add: store_item_other split: pyval.splits sum.splits)

lemma dict_copy_other:
  "dict_copy a st = (p, st1) \<Longrightarrow> store st1 (Default m n) = store st (Default m n)"
  by (auto simp: dict_copy_def)

lemma dict_copy_is_new: "dict_copy a st = (p, st1) \<Longrightarrow> p = New (fresh st)"
  by (auto simp: dict_copy_def)

lemma merged_parms_keeps_registry:
  "store (fst (merged_parms cfg cmdname m kwargs st)) (Default m' n') = store st (Default m' n')"
proof (cases "lookup cmdname m")
  case None
  then show ?thesis by (simp add: merged_parms_def)
next
  case (Some ca)
  obtain c a where ca: "ca = (c, a)" by (cases ca)
  obtain p st1 where cp: "dict_copy a st = (p, st1)" by (cases "dict_copy a st")
  have p: "p \<noteq> Default m' n'" using dict_copy_is_new [OF cp] by simp
  have s1: "store st1 (Default m' n') = store st (Default m' n')"
    by (rule dict_copy_other [OF cp])
  obtain st2 r where ev: "eval_items p kwargs (dict_update p kwargs st1) = (st2, r)"
    by (cases "eval_items p kwargs (dict_update p kwargs st1)")
  have s2: "store st2 (Default m' n') = store st (Default m' n')"
    using eval_items_other [OF p, of kwargs "dict_update p kwargs st1"] ev
      dict_update_other [OF p, of kwargs st1] s1 by simp
  show ?thesis
    using Some ca cp ev s2 p
    by (cases r) (simp_all add: merged_parms_def Let_def store_item_other)
qed

lemma commandfactory_keeps_registry:
  "store (fst (commandfactory cfg cmdname m kwargs st)) (Default m' n') = store st (Default m' n')"
proof -
  obtain st' r where mp: "merged_parms cfg cmdname m kwargs st = (st', r)"
    by (cases "merged_parms cfg cmdname m kwargs st")
  have "store st' (Default m' n') = store st (Default m' n')"
    using merged_parms_keeps_registry [of cfg cmdname m kwargs st m' n'] mp by simp
  then show ?thesis
    using mp by (cases r) (auto simp: commandfactory_def split: prod.splits)
qed


lemma logging_fresh [simp]: "fresh (logging lv fmt args st) = fresh st"
  by (simp add: logging_def)

lemma map_of_setitem: "map_of (setitem k v d) = (map_of d)(k \<mapsto> v)"
  by (simp add: setitem_def update_conv')

lemma dict_update_same:
  "store (dict_update a kvs st) a = fold (\<lambda>kv. setitem (fst kv) (snd kv)) kvs (store st a)"
  by (induction a kvs st rule: dict_update.induct) (simp_all add: store_item_same)

lemma eval_items_raises:
  "outcomes kvs = Inl e \<Longrightarrow> snd (eval_items a kvs st) = Inl e"
  by (induction a kvs st rule: eval_items.induct)
     (auto simp: outcome_def split: pyval.splits sum.splits)

lemma eval_items_same:
  "outcomes kvs = Inr ws \<Longrightarrow>
     snd (eval_items a kvs st) = Inr () \<and>
     store (fst (eval_items a kvs st)) a = fold (\<lambda>kv. setitem (fst kv) (snd kv)) ws (store st a)"
  by (induction a kvs st arbitrary: ws rule: eval_items.induct)
     (auto simp: outcome_def store_item_same split: pyval.splits sum.splits)

lemma outcomes_keys: "outcomes kvs = Inr ws \<Longrightarrow> map fst ws = map fst kvs"
  by (induction kvs arbitrary: ws rule: outcomes.induct) (auto split: sum.splits)

lemma map_of_fold_setitem:
  "distinct (map fst kvs) \<Longrightarrow>
     map_of (fold (\<lambda>kv. setitem (fst kv) (snd kv)) kvs d) = map_of d ++ map_of kvs"
proof (induction kvs arbitrary: d)
  case Nil
  then show ?case by simp
next
  case (Cons kv kvs)
  have notin: "fst kv \<notin> dom (map_of kvs)"
    using Cons.prems by (simp add: dom_map_of_conv_image_fst)
  have "map_of (fold (\<lambda>kv. setitem (fst kv) (snd kv)) (kv # kvs) d)
          = (map_of d)(fst kv \<mapsto> snd kv) ++ map_of kvs"
    using Cons by (simp add: map_of_setitem)
  also have "\<dots> = (map_of d ++ map_of kvs)(fst kv \<mapsto> snd kv)"
    using notin by (rule map_add_upd_left)
  also have "\<dots> = map_of d ++ map_of (kv # kvs)"
    by (cases kv) simp
  finally show ?case .
qed

lemma overlay_twice:
  "dom m2 = dom m3 \<Longrightarrow> (m1 ++ m2) ++ m3 = m1 ++ m3"
  by (rule ext) (auto simp: map_add_def split: option.splits)


lemma merged_parms_exact:
  assumes lk: "lookup cmdname m = Some (c, a)" and oc: "outcomes kwargs = Inr ws"
  shows "\<exists>st'. merged_parms cfg cmdname m kwargs st = (st', Inr (c, New (fresh st))) \<and>
           store st' (New (fresh st)) =
             setitem ''posthook'' (hooks_get cfg (''post_'' @ cmdname))
               (setitem ''prehook'' (hooks_get cfg (''pre_'' @ cmdname))
                 (fold (\<lambda>kv. setitem (fst kv) (snd kv)) ws
                   (fold (\<lambda>kv. setitem (fst kv) (snd kv)) kwargs (store st a))))"
proof -
  define p where "p = New (fresh st)"
  define st1 where "st1 = st\<lparr>store := (store st)(p := store st a), fresh := Suc (fresh st)\<rparr>"
  have cp: "dict_copy a st = (p, st1)" by (simp add: dict_copy_def p_def st1_def)
  define st2 where "st2 = fst (eval_items p kwargs (dict_update p kwargs st1))"
  have ev: "eval_items p kwargs (dict_update p kwargs st1) = (st2, Inr ())"
    using eval_items_same [OF oc, of p "dict_update p kwargs st1"]
    by (simp add: st2_def prod_eq_iff)
  have "store st2 p =
          fold (\<lambda>kv. setitem (fst kv) (snd kv)) ws
            (fold (\<lambda>kv. setitem (fst kv) (snd kv)) kwargs (store st a))"
    using eval_items_same [OF oc, of p "dict_update p kwargs st1"]
    by (simp add: st2_def dict_update_same st1_def)
  then show ?thesis
    using lk cp ev by (simp add: merged_parms_def Let_def store_item_same p_def)
qed

lemma merged_parms_raises:
  assumes lk: "lookup cmdname m = Some (c, a)" and oc: "outcomes kwargs = Inl e"
  shows "snd (merged_parms cfg cmdname m kwargs st) = Inl e"
proof -
  obtain p st1 where cp: "dict_copy a st = (p, st1)" by (cases "dict_copy a st")
  obtain st2 r where ev: "eval_items p kwargs (dict_update p kwargs st1) = (st2, r)"
    by (cases "eval_items p kwargs (dict_update p kwargs st1)")
  have "r = Inl e"
    using eval_items_raises [OF oc, of p "dict_update p kwargs st1"] ev by simp
  then show ?thesis using lk cp ev by (simp add: merged_parms_def)
qed

text \<open>The parameters that the constructor receives, as a function of the defaults.\<close>

lemma merged_parms_content:
  assumes lk: "lookup cmdname m = Some (c, a)"
      and dist: "distinct (map fst kwargs)"
      and oc: "outcomes kwargs = Inr ws"
  shows "\<exists>st' p. merged_parms cfg cmdname m kwargs st = (st', Inr (c, p)) \<and>
           map_of (store st' p) =
             (map_of (store st a) ++ map_of ws)
               (''prehook'' \<mapsto> hooks_get cfg (''pre_'' @ cmdname),
                ''posthook'' \<mapsto> hooks_get cfg (''post_'' @ cmdname))"
proof -
  obtain st' where mp: "merged_parms cfg cmdname m kwargs st = (st', Inr (c, New (fresh st)))"
    and ct: "store st' (New (fresh st)) =
             setitem ''posthook'' (hooks_get cfg (''post_'' @ cmdname))
               (setitem ''prehook'' (hooks_get cfg (''pre_'' @ cmdname))
                 (fold (\<lambda>kv. setitem (fst kv) (snd kv)) ws
                   (fold (\<lambda>kv. setitem (fst kv) (snd kv)) kwargs (store st a))))"
    using merged_parms_exact [OF lk oc, of cfg st] by blast
  have k: "map fst ws = map fst kwargs" by (rule outcomes_keys [OF oc])
  have "dom (map_of kwargs) = dom (map_of ws)"
    using k by (simp add: dom_map_of_conv_image_fst) (metis set_map)
  then have "map_of (fold (\<lambda>kv. setitem (fst kv) (snd kv)) ws
                   (fold (\<lambda>kv. setitem (fst kv) (snd kv)) kwargs (store st a)))
              = map_of (store st a) ++ map_of ws"
    using dist k by (simp add: map_of_fold_setitem overlay_twice)
  then show ?thesis using mp ct by (simp add: map_of_setitem)
qed

text \<open>The result of \<^verbatim>\<open>commandfactory\<close> as a function of the defaults it reads.\<close>

lemma commandfactory_result:
  "snd (commandfactory cfg cmdname m kwargs st) =
     (case lookup cmdname m of
        None \<Rightarrow> Inl UnboundLocalError
      | Some (c, a) \<Rightarrow>
          (case outcomes kwargs of
             Inl e \<Rightarrow> Inl e
           | Inr ws \<Rightarrow>
               construct cfg c
                 (setitem ''posthook'' (hooks_get cfg (''post_'' @ cmdname))
                   (setitem ''prehook'' (hooks_get cfg (''pre_'' @ cmdname))
                     (fold (\<lambda>kv. setitem (fst kv) (snd kv)) ws
                       (fold (\<lambda>kv. setitem (fst kv) (snd kv)) kwargs (store st a)))))))"
proof (cases "lookup cmdname m")
  case None
  then show ?thesis by (simp add: commandfactory_def merged_parms_def)
next
  case (Some ca)
  obtain c a where ca: "ca = (c, a)" by (cases ca)
  show ?thesis
  proof (cases "outcomes kwargs")
    case (Inl e)
    have "snd (merged_parms cfg cmdname m kwargs st) = Inl e"
      using merged_parms_raises [of cmdname m c a kwargs e cfg st] Some ca Inl by simp
    then show ?thesis
      using Some ca Inl
      by (cases "merged_parms cfg cmdname m kwargs st") (simp add: commandfactory_def)
  next
    case (Inr ws)
    show ?thesis
      using merged_parms_exact [of cmdname m c a kwargs ws cfg st] Some ca Inr
      by (auto simp: commandfactory_def)
  qed
qed

lemma lookup_is_default: "lookup cmdname m = Some (c, a) \<Longrightarrow> \<exists>m'. a = Default m' cmdname"
  by (auto simp: lookup_def split: option.splits)

lemma resolutions_keep_registry:
  "store (resolutions cfg rs st) (Default m' n') = store st (Default m' n')"
  by (induction cfg rs st rule: resolutions.induct) (simp_all add: commandfactory_keeps_registry)

text \<open>
  Claim C10. \<^verbatim>\<open>commandfactory\<close> never writes to a dictionary of the registry: it
  copies the defaults and writes to the copy. After one call, and after any sequence of
  calls, every default-parameter dictionary of \<^verbatim>\<open>COMMANDS\<close> holds what it held
  before (from the loaded module on: the literal of the table), and a later call returns
  what it would have returned at the start.
\<close>

theorem registry_never_mutated:
  "store (fst (commandfactory cfg cmdname m kwargs st)) (Default m' n') = store st (Default m' n')
   \<and> store (resolutions cfg rs st) (Default m' n') = store st (Default m' n')
   \<and> store (resolutions cfg rs loaded) (Default m' n') =
       (case map_of (COMMANDS m') n' of None \<Rightarrow> [] | Some (c, d) \<Rightarrow> d)
   \<and> snd (commandfactory cfg cmdname m kwargs (resolutions cfg rs st)) =
       snd (commandfactory cfg cmdname m kwargs st)"
proof -
  have later: "snd (commandfactory cfg cmdname m kwargs (resolutions cfg rs st)) =
       snd (commandfactory cfg cmdname m kwargs st)"
  proof (cases "lookup cmdname m")
    case None
    then show ?thesis by (simp add: commandfactory_result)
  next
    case (Some ca)
    obtain c a where ca: "ca = (c, a)" by (cases ca)
    obtain m0 where "a = Default m0 cmdname" using lookup_is_default Some ca by blast
    then have "store (resolutions cfg rs st) a = store st a"
      by (simp add: resolutions_keep_registry)
    then show ?thesis using Some ca by (simp add: commandfactory_result cong: sum.case_cong)
  qed
  have "store (loaded) (Default m' n') =
       (case map_of (COMMANDS m') n' of None \<Rightarrow> [] | Some (c, d) \<Rightarrow> d)"
    by (simp add: loaded_def)
  then show ?thesis
    using later by (simp add: commandfactory_keeps_registry resolutions_keep_registry)
qed

lemma not_registered: "\<not> registered m cmdname \<Longrightarrow> map_of (COMMANDS m) cmdname = None"
  unfolding registered_def by blast

lemma lookup_unregistered:
  assumes "\<not> registered m cmdname" and "\<not> registered Global cmdname"
  shows "lookup cmdname m = None"
  unfolding lookup_def
  by (simp only: not_registered [OF assms(1)] not_registered [OF assms(2)] option.case)

lemma lookup_fallback:
  assumes "\<not> registered m cmdname"
  shows "lookup cmdname m = lookup cmdname Global"
proof (cases "map_of (COMMANDS Global) cmdname")
  case None
  show ?thesis
    unfolding lookup_def by (simp only: not_registered [OF assms] None option.case)
next
  case (Some cd)
  show ?thesis
    unfolding lookup_def
    by (cases cd) (simp only: not_registered [OF assms] Some option.case prod.case)
qed

text \<open>
  Claim C2, as the code has it. For a name that neither the table of the mode nor the
  global one holds, \<^verbatim>\<open>commandfactory\<close> logs the error and then raises
  \<^verbatim>\<open>UnboundLocalError\<close> to its caller: the branch that logs does not return, and the
  next statement reads the local \<^verbatim>\<open>parms\<close> that was never bound.
\<close>

theorem unknown_name_raises:
  "\<not> registered m cmdname \<Longrightarrow> \<not> registered Global cmdname \<Longrightarrow>
     commandfactory cfg cmdname m kwargs st =
       (logging ERROR ''there is no command %s'' [PStr cmdname] st, Inl UnboundLocalError)"
  by (simp add: commandfactory_def merged_parms_def lookup_unregistered)

theorem unknown_name_raises_witness:
  "\<not> registered Global ''nonexistent'' \<and>
   commandfactory plain_config ''nonexistent'' Global [] loaded =
     (loaded\<lparr>logged := [(ERROR, ''there is no command %s'', [PStr ''nonexistent''])]\<rparr>,
      Inl UnboundLocalError)"
proof -
  have r: "\<not> registered Global ''nonexistent''" by (simp add: registered_def)
  show ?thesis
    using r unknown_name_raises [OF r r, of plain_config "[]" loaded]
    by (simp add: logging_def loaded_def)
qed

lemma only_global_lookup:
  assumes "only_global cmdname"
  shows "lookup cmdname m = lookup cmdname Global"
proof (cases "m = Global")
  case True
  then show ?thesis by simp
next
  case False
  then have "m \<in> set [Search, Thread, Envelope, Bufferlist, Taglist]"
    by (cases m) simp_all
  then have "\<not> registered m cmdname"
    using assms unfolding only_global_def list_all_iff by blast
  then show ?thesis by (rule lookup_fallback)
qed

text \<open>
  Claim C4. For a name that only the global table holds, \<^verbatim>\<open>commandfactory\<close> does in
  every mode what it does in the global mode: the same result (the command with its class
  and merged parameters, or the exception) and the same state.
\<close>

theorem global_fallback:
  "only_global cmdname \<Longrightarrow>
     commandfactory cfg cmdname m kwargs st = commandfactory cfg cmdname Global kwargs st"
  by (simp add: commandfactory_def merged_parms_def only_global_lookup [of cmdname m])

lemma global_names_only_global:
  assumes "registered Global cmdname"
  shows "only_global cmdname"
proof -
  have "cmdname \<in> set (map fst (COMMANDS Global))"
    using assms by (simp add: registered_def map_of_eq_None_iff del: COMMANDS.simps)
  then have "cmdname \<in> {''bnext'', ''bprevious'', ''bufferlist'', ''close'', ''commandprompt'',
      ''compose'', ''edit'', ''exit'', ''flush'', ''prompt'', ''pyshell'', ''refresh'',
      ''search'', ''shellescape'', ''taglist''}"
    by simp
  then show ?thesis
    by (elim insertE emptyE) (simp_all add: only_global_def registered_def)
qed

theorem global_fallback_witness:
  "only_global ''exit'' \<and>
   commandfactory plain_config ''exit'' Thread [] loaded =
     commandfactory plain_config ''exit'' Global [] loaded \<and>
   snd (commandfactory plain_config ''exit'' Thread [] loaded) =
     Inr \<lparr>cls = ExitCommand,
          attrs = [(''prehook'', PNone), (''posthook'', PNone), (''undoable'', PBool False),
                   (''help'', DocOf ExitCommand)]\<rparr>"
proof -
  have g: "only_global ''exit''" by (simp add: only_global_def registered_def)
  have "snd (commandfactory plain_config ''exit'' Global [] loaded) =
     Inr \<lparr>cls = ExitCommand,
          attrs = [(''prehook'', PNone), (''posthook'', PNone), (''undoable'', PBool False),
                   (''help'', DocOf ExitCommand)]\<rparr>"
    by (simp add: commandfactory_result lookup_def loaded_def plain_config_def construct_def
          Command_init_def setitem_def kwarg_def)
  then show ?thesis
    using g global_fallback [OF g, of plain_config Thread "[]" loaded] by simp
qed

subsection \<open>The merge of the parameters\<close>

lemma outcomes_lookup:
  "outcomes kvs = Inr ws \<Longrightarrow>
     map_of ws k =
       (case map_of kvs k of
          None \<Rightarrow> None
        | Some v \<Rightarrow> (case outcome v of Inl e \<Rightarrow> None | Inr w \<Rightarrow> Some w))"
  by (induction kvs arbitrary: ws rule: outcomes.induct) (auto split: sum.splits)

lemma outcomes_no_raise:
  "outcomes kvs = Inr ws \<Longrightarrow> map_of kvs k = Some v \<Longrightarrow> \<exists>w. outcome v = Inr w"
  by (induction kvs arbitrary: ws rule: outcomes.induct) (auto split: sum.splits if_splits)

text \<open>
  Claim C3. Call-site parameters override the defaults of the registry. For every name
  that \<^verbatim>\<open>commandfactory\<close> resolves in the mode, and every call-site mapping none of
  whose callables raises, the constructor receives the defaults overlaid with the
  call-site values (each callable replaced by its result), and then the two hooks: a key
  of the call site is bound to the call-site value whatever the default says. The case
  \<^verbatim>\<open>resolve('toggletag', 'search', tag='urgent')\<close> is the witness below.
\<close>

theorem callsite_overrides_defaults:
  assumes "lookup cmdname m = Some (c, a)"
      and "distinct (map fst kwargs)"
      and "outcomes kwargs = Inr ws"
  shows "\<exists>st' p. merged_parms cfg cmdname m kwargs st = (st', Inr (c, p)) \<and>
           commandfactory cfg cmdname m kwargs st = (st', construct cfg c (store st' p)) \<and>
           map_of (store st' p) =
             (map_of (store st a) ++ map_of ws)
               (''prehook'' \<mapsto> hooks_get cfg (''pre_'' @ cmdname),
                ''posthook'' \<mapsto> hooks_get cfg (''post_'' @ cmdname)) \<and>
           (\<forall>k v. map_of ws k = Some v \<and> k \<noteq> ''prehook'' \<and> k \<noteq> ''posthook''
                    \<longrightarrow> map_of (store st' p) k = Some v)"
proof -
  obtain st' p where mp: "merged_parms cfg cmdname m kwargs st = (st', Inr (c, p))"
    and ct: "map_of (store st' p) =
             (map_of (store st a) ++ map_of ws)
               (''prehook'' \<mapsto> hooks_get cfg (''pre_'' @ cmdname),
                ''posthook'' \<mapsto> hooks_get cfg (''post_'' @ cmdname))"
    using merged_parms_content [OF assms, of cfg st] by blast
  have cf: "commandfactory cfg cmdname m kwargs st = (st', construct cfg c (store st' p))"
    using mp by (simp add: commandfactory_def)
  have "\<forall>k v. map_of ws k = Some v \<and> k \<noteq> ''prehook'' \<and> k \<noteq> ''posthook''
                    \<longrightarrow> map_of (store st' p) k = Some v"
    using ct by (simp add: map_add_def)
  then show ?thesis using mp cf ct by blast
qed

theorem callsite_overrides_defaults_witness:
  "lookup ''toggletag'' Search = Some (ToggleThreadTagCommand, Default Search ''toggletag'') \<and>
   store loaded (Default Search ''toggletag'') = [(''tag'', PStr ''inbox'')] \<and>
   outcomes [(''tag'', PStr ''urgent'')] = Inr [(''tag'', PStr ''urgent'')] \<and>
   (\<exists>st' p. commandfactory plain_config ''toggletag'' Search [(''tag'', PStr ''urgent'')] loaded
              = (st', construct plain_config ToggleThreadTagCommand (store st' p)) \<and>
            map_of (store st' p) ''tag'' = Some (PStr ''urgent'')) \<and>
   snd (commandfactory plain_config ''toggletag'' Search [(''tag'', PStr ''urgent'')] loaded) =
     Inr \<lparr>cls = ToggleThreadTagCommand,
          attrs = [(''thread'', PNone), (''tag'', PStr ''urgent''), (''prehook'', PNone),
                   (''posthook'', PNone), (''undoable'', PBool False),
                   (''help'', DocOf ToggleThreadTagCommand)]\<rparr>"
proof -
  have lk: "lookup ''toggletag'' Search
              = Some (ToggleThreadTagCommand, Default Search ''toggletag'')"
    by (simp add: lookup_def)
  have d: "distinct (map fst [(''tag'', PStr ''urgent'')])" by simp
  have oc: "outcomes [(''tag'', PStr ''urgent'')] = Inr [(''tag'', PStr ''urgent'')]"
    by (simp add: outcome_def)
  have dflt: "store loaded (Default Search ''toggletag'') = [(''tag'', PStr ''inbox'')]"
    by (simp add: loaded_def)
  have ex: "\<exists>st' p. commandfactory plain_config ''toggletag'' Search [(''tag'', PStr ''urgent'')] loaded
              = (st', construct plain_config ToggleThreadTagCommand (store st' p)) \<and>
            map_of (store st' p) ''tag'' = Some (PStr ''urgent'')"
  proof -
    obtain st' p where
      cf: "commandfactory plain_config ''toggletag'' Search [(''tag'', PStr ''urgent'')] loaded
              = (st', construct plain_config ToggleThreadTagCommand (store st' p))"
      and wins: "\<forall>k v. map_of [(''tag'', PStr ''urgent'')] k = Some v \<and> k \<noteq> ''prehook''
                    \<and> k \<noteq> ''posthook'' \<longrightarrow> map_of (store st' p) k = Some v"
      using callsite_overrides_defaults [OF lk d oc, of plain_config loaded] by blast
    have "map_of (store st' p) ''tag'' = Some (PStr ''urgent'')"
      using wins [rule_format, of "''tag''" "PStr ''urgent''"] by simp
    then show ?thesis using cf by blast
  qed
  have res: "snd (commandfactory plain_config ''toggletag'' Search [(''tag'', PStr ''urgent'')] loaded) =
     Inr \<lparr>cls = ToggleThreadTagCommand,
          attrs = [(''thread'', PNone), (''tag'', PStr ''urgent''), (''prehook'', PNone),
                   (''posthook'', PNone), (''undoable'', PBool False),
                   (''help'', DocOf ToggleThreadTagCommand)]\<rparr>"
    by (simp add: commandfactory_result lk outcome_def dflt plain_config_def construct_def
          ToggleThreadTagCommand_init_def Command_init_def setitem_def kwarg_def remaining_def)
  show ?thesis using lk dflt oc ex res by blast
qed

text \<open>
  Claim C9 as stated fails for a default of the registry: with a callable as the default
  of \<^verbatim>\<open>tag\<close>, \<^verbatim>\<open>commandfactory('toggletag', 'search')\<close> hands the callable itself to
  the constructor. The loop runs over \<^verbatim>\<open>kwargs.items()\<close> only.
\<close>

theorem registry_callable_not_invoked:
  "store deferred_default (Default Search ''toggletag'')
     = [(''tag'', PCallable (Inr (PStr ''inbox'')))] \<and>
   snd (commandfactory plain_config ''toggletag'' Search [] deferred_default) =
     Inr \<lparr>cls = ToggleThreadTagCommand,
          attrs = [(''thread'', PNone), (''tag'', PCallable (Inr (PStr ''inbox''))),
                   (''prehook'', PNone), (''posthook'', PNone), (''undoable'', PBool False),
                   (''help'', DocOf ToggleThreadTagCommand)]\<rparr>"
proof -
  have lk: "lookup ''toggletag'' Search
              = Some (ToggleThreadTagCommand, Default Search ''toggletag'')"
    by (simp add: lookup_def)
  have dflt: "store deferred_default (Default Search ''toggletag'')
     = [(''tag'', PCallable (Inr (PStr ''inbox'')))]"
    by (simp add: deferred_default_def)
  show ?thesis
    by (simp add: commandfactory_result lk dflt plain_config_def construct_def
          ToggleThreadTagCommand_init_def Command_init_def setitem_def kwarg_def remaining_def)
qed

text \<open>
  Claim C9, amended. Every call-site value that is callable is called before the command
  is constructed: if one raises, \<^verbatim>\<open>commandfactory\<close> raises the same exception and
  constructs nothing; otherwise the constructor receives the result of the call under
  that key. A default of the registry whose key the call site does not give is passed on
  as the registry holds it, callable or not.
\<close>

theorem callsite_callables_invoked:
  assumes lk: "lookup cmdname m = Some (c, a)"
      and dist: "distinct (map fst kwargs)"
  shows "(\<forall>e. outcomes kwargs = Inl e \<longrightarrow>
            snd (commandfactory cfg cmdname m kwargs st) = Inl e) \<and>
         (\<forall>ws. outcomes kwargs = Inr ws \<longrightarrow>
            (\<exists>st' p. merged_parms cfg cmdname m kwargs st = (st', Inr (c, p)) \<and>
               commandfactory cfg cmdname m kwargs st = (st', construct cfg c (store st' p)) \<and>
               (\<forall>k r. map_of kwargs k = Some (PCallable r) \<and> k \<noteq> ''prehook'' \<and> k \<noteq> ''posthook''
                   \<longrightarrow> (\<exists>v. r = Inr v \<and> map_of (store st' p) k = Some v)) \<and>
               (\<forall>k. map_of kwargs k = None \<and> k \<noteq> ''prehook'' \<and> k \<noteq> ''posthook''
                   \<longrightarrow> map_of (store st' p) k = map_of (store st a) k)))"
proof (intro conjI allI impI)
  fix e assume "outcomes kwargs = Inl e"
  then show "snd (commandfactory cfg cmdname m kwargs st) = Inl e"
    using lk by (simp add: commandfactory_result)
next
  fix ws assume oc: "outcomes kwargs = Inr ws"
  obtain st' p where mp: "merged_parms cfg cmdname m kwargs st = (st', Inr (c, p))"
    and ct: "map_of (store st' p) =
             (map_of (store st a) ++ map_of ws)
               (''prehook'' \<mapsto> hooks_get cfg (''pre_'' @ cmdname),
                ''posthook'' \<mapsto> hooks_get cfg (''post_'' @ cmdname))"
    using merged_parms_content [OF lk dist oc, of cfg st] by blast
  have cf: "commandfactory cfg cmdname m kwargs st = (st', construct cfg c (store st' p))"
    using mp by (simp add: commandfactory_def)
  have called: "\<forall>k r. map_of kwargs k = Some (PCallable r) \<and> k \<noteq> ''prehook'' \<and> k \<noteq> ''posthook''
                   \<longrightarrow> (\<exists>v. r = Inr v \<and> map_of (store st' p) k = Some v)"
  proof (intro allI impI)
    fix k r
    assume h: "map_of kwargs k = Some (PCallable r) \<and> k \<noteq> ''prehook'' \<and> k \<noteq> ''posthook''"
    then obtain v where v: "r = Inr v"
      using outcomes_no_raise [OF oc, of k "PCallable r"] by (auto simp: outcome_def)
    have "map_of ws k = Some v"
      using outcomes_lookup [OF oc, of k] h v by (simp add: outcome_def)
    then have "map_of (store st' p) k = Some v"
      using ct h by (simp add: map_add_def)
    then show "\<exists>v. r = Inr v \<and> map_of (store st' p) k = Some v" using v by blast
  qed
  have kept: "\<forall>k. map_of kwargs k = None \<and> k \<noteq> ''prehook'' \<and> k \<noteq> ''posthook''
                   \<longrightarrow> map_of (store st' p) k = map_of (store st a) k"
  proof (intro allI impI)
    fix k
    assume h: "map_of kwargs k = None \<and> k \<noteq> ''prehook'' \<and> k \<noteq> ''posthook''"
    have "map_of ws k = None" using outcomes_lookup [OF oc, of k] h by simp
    then show "map_of (store st' p) k = map_of (store st a) k"
      using ct h by (simp add: map_add_def)
  qed
  show "\<exists>st' p. merged_parms cfg cmdname m kwargs st = (st', Inr (c, p)) \<and>
               commandfactory cfg cmdname m kwargs st = (st', construct cfg c (store st' p)) \<and>
               (\<forall>k r. map_of kwargs k = Some (PCallable r) \<and> k \<noteq> ''prehook'' \<and> k \<noteq> ''posthook''
                   \<longrightarrow> (\<exists>v. r = Inr v \<and> map_of (store st' p) k = Some v)) \<and>
               (\<forall>k. map_of kwargs k = None \<and> k \<noteq> ''prehook'' \<and> k \<noteq> ''posthook''
                   \<longrightarrow> map_of (store st' p) k = map_of (store st a) k)"
    using mp cf called kept by blast
qed

theorem callsite_callables_invoked_witness:
  "lookup ''toggletag'' Search = Some (ToggleThreadTagCommand, Default Search ''toggletag'') \<and>
   outcomes [(''thread'', PCallable (Inr (Opaque ''selected thread'')))]
     = Inr [(''thread'', Opaque ''selected thread'')] \<and>
   (\<exists>st' p. commandfactory plain_config ''toggletag'' Search
               [(''thread'', PCallable (Inr (Opaque ''selected thread'')))] deferred_default
              = (st', construct plain_config ToggleThreadTagCommand (store st' p)) \<and>
            map_of (store st' p) ''thread'' = Some (Opaque ''selected thread'') \<and>
            map_of (store st' p) ''tag'' = Some (PCallable (Inr (PStr ''inbox'')))) \<and>
   snd (commandfactory plain_config ''toggletag'' Search
          [(''thread'', PCallable (Inl (Raised ''IndexError'')))] deferred_default)
     = Inl (Raised ''IndexError'')"
proof -
  have lk: "lookup ''toggletag'' Search
              = Some (ToggleThreadTagCommand, Default Search ''toggletag'')"
    by (simp add: lookup_def)
  have oc: "outcomes [(''thread'', PCallable (Inr (Opaque ''selected thread'')))]
     = Inr [(''thread'', Opaque ''selected thread'')]"
    by (simp add: outcome_def)
  have oc2: "outcomes [(''thread'', PCallable (Inl (Raised ''IndexError'')))]
     = Inl (Raised ''IndexError'')"
    by (simp add: outcome_def)
  have dflt: "map_of (store deferred_default (Default Search ''toggletag'')) ''tag''
     = Some (PCallable (Inr (PStr ''inbox'')))"
    by (simp add: deferred_default_def)
  have d: "distinct (map fst [(''thread'', PCallable (Inr (Opaque ''selected thread'')))])"
    by simp
  have d2: "distinct (map fst [(''thread'', PCallable (Inl (Raised ''IndexError'')))])"
    by simp
  note ok = callsite_callables_invoked [OF lk d, of plain_config deferred_default,
      THEN conjunct2, rule_format, OF oc]
  note bad = callsite_callables_invoked [OF lk d2, of plain_config deferred_default,
      THEN conjunct1, rule_format, OF oc2]
  obtain st' p where
    cf: "commandfactory plain_config ''toggletag'' Search
               [(''thread'', PCallable (Inr (Opaque ''selected thread'')))] deferred_default
              = (st', construct plain_config ToggleThreadTagCommand (store st' p))"
    and called: "\<forall>k r. map_of [(''thread'', PCallable (Inr (Opaque ''selected thread'')))] k
                     = Some (PCallable r) \<and> k \<noteq> ''prehook'' \<and> k \<noteq> ''posthook''
                   \<longrightarrow> (\<exists>v. r = Inr v \<and> map_of (store st' p) k = Some v)"
    and kept: "\<forall>k. map_of [(''thread'', PCallable (Inr (Opaque ''selected thread'')))] k = None
                    \<and> k \<noteq> ''prehook'' \<and> k \<noteq> ''posthook''
                   \<longrightarrow> map_of (store st' p) k
                        = map_of (store deferred_default (Default Search ''toggletag'')) k"
    using ok by blast
  have t: "map_of (store st' p) ''thread'' = Some (Opaque ''selected thread'')"
    using called [rule_format, of "''thread''" "Inr (Opaque ''selected thread'')"] by simp
  have g: "map_of (store st' p) ''tag'' = Some (PCallable (Inr (PStr ''inbox'')))"
    using kept [rule_format, of "''tag''"] dflt by simp
  show ?thesis using lk oc cf t g bad by blast
qed

subsection \<open>The command line\<close>

lemma parse_cmdline_eq:
  "parse_cmdline cmdline =
     Inr (takeWhile (\<lambda>c. c \<noteq> CHR '' '') (strip cmdline),
          drop 1 (dropWhile (\<lambda>c. c \<noteq> CHR '' '') (strip cmdline)))"
proof (cases "dropWhile (\<lambda>c. c \<noteq> CHR '' '') (strip cmdline)")
  case Nil
  then have tw: "takeWhile (\<lambda>c. c \<noteq> CHR '' '') (strip cmdline) = strip cmdline"
    by (simp add: takeWhile_eq_all_conv)
  show ?thesis unfolding parse_cmdline_def split_once_def Nil tw by simp
next
  case (Cons blank rest)
  then show ?thesis by (simp add: parse_cmdline_def split_once_def)
qed

lemma rejoin_at_blank:
  "takeWhile (\<lambda>c. c \<noteq> CHR '' '') xs @ CHR '' '' # drop 1 (dropWhile (\<lambda>c. c \<noteq> CHR '' '') xs)
     = (if CHR '' '' \<in> set xs then xs else xs @ '' '')"
  by (induction xs) auto

lemma return_command_snd:
  "snd (return_command cfg cmd m kw st) =
     (case snd (commandfactory cfg cmd m kw st) of Inl e \<Rightarrow> Inl e | Inr c \<Rightarrow> Inr (Some c))"
  by (simp add: return_command_def split: prod.splits sum.splits)

lemma lookup_registered:
  "(lookup cmd m = None) = (\<not> registered m cmd \<and> \<not> registered Global cmd)"
  by (simp add: lookup_def registered_def del: COMMANDS.simps split: option.splits)

lemma interpret_commandline_eq:
  \<open>cmdline \<noteq> [] \<Longrightarrow> parse_cmdline cmdline = Inr (tok, params) \<Longrightarrow>
     interpret_commandline cfg cmdline m st =
       (case shellescape_shorthand (unfold_alias cfg tok, params) of
          (cmd, params') \<Rightarrow>
            dispatch cfg cmd params' m
              (logging DEBUG ''mode:%s got commandline "%s"''
                 [PStr (mode_name m), PStr cmdline] st))\<close>
  by (simp add: interpret_commandline_def Let_def)

text \<open>
  Claim C1, as the code has it. The line \<^verbatim>\<open>toggletag\<close> in the mode \<^verbatim>\<open>search\<close>
  (with no alias for that name) passes the empty remainder as \<^verbatim>\<open>tag\<close>; the
  constructor's \<^verbatim>\<open>assert tag\<close> fails, and nothing between the constructor and the
  caller of \<^verbatim>\<open>interpret_commandline\<close> catches the \<^verbatim>\<open>AssertionError\<close>.
\<close>

theorem toggletag_without_tag_raises:
  "snd (interpret_commandline (cfg\<lparr>aliases := \<lambda>cmd. None\<rparr>) ''toggletag'' Search st)
     = Inl AssertionError"
proof -
  have p: "parse_cmdline ''toggletag'' = Inr (''toggletag'', [])"
    by (simp add: parse_cmdline_def split_once_def strip_def is_space_def)
  have lk: "lookup ''toggletag'' Search
              = Some (ToggleThreadTagCommand, Default Search ''toggletag'')"
    by (simp add: lookup_def)
  have r: "registered Search ''toggletag''" by (simp add: registered_def)
  show ?thesis
    using r
    by (simp add: interpret_commandline_eq [OF _ p] unfold_alias_def
          shellescape_shorthand_def startswith_def dispatch_def return_command_snd
          commandfactory_result lk outcome_def construct_def ToggleThreadTagCommand_init_def
          map_of_setitem)
qed

lemma init_ignores_aliases: "init (cfg\<lparr>aliases := als\<rparr>) c kw = init cfg c kw"
proof (cases c)
  case EditCommand
  then show ?thesis
    by (simp add: EditCommand_init_def Let_def split: option.splits pyval.splits)
next
  case EnvelopeSetCommand
  then show ?thesis
    by (simp add: EnvelopeSetCommand_init_def Let_def split: sum.splits)
qed simp_all

lemma commandfactory_ignores_aliases:
  "commandfactory (cfg\<lparr>aliases := als\<rparr>) cmd m kw st = commandfactory cfg cmd m kw st"
  unfolding commandfactory_def merged_parms_def construct_def init_ignores_aliases
  by (simp cong: option.case_cong prod.case_cong sum.case_cong)

lemma return_command_ignores_aliases:
  "return_command (cfg\<lparr>aliases := als\<rparr>) cmd m kw st = return_command cfg cmd m kw st"
  by (simp add: return_command_def commandfactory_ignores_aliases)

lemma dispatch_ignores_aliases:
  "dispatch (cfg\<lparr>aliases := als\<rparr>) cmd params m st = dispatch cfg cmd params m st"
  unfolding dispatch_def return_command_ignores_aliases
  by (simp add: Let_def cong: if_cong)

lemma strip_nonempty: "strip cmdline \<noteq> [] \<Longrightarrow> cmdline \<noteq> []"
  by (auto simp: strip_def)

lemma lookup_shellescape:
  "lookup ''shellescape'' m = Some (ExternalCommand, Default Global ''shellescape'')"
  by (cases m) (simp_all add: lookup_def)

lemma shellescape_command:
  "\<exists>st' c. return_command cfg ''shellescape'' m [(''commandstring'', PStr p)] st
             = (st', Inr (Some c)) \<and>
           cls c = ExternalCommand \<and> map_of (attrs c) ''commandstring'' = Some (PStr p)"
proof -
  obtain st' r where cf:
    "commandfactory cfg ''shellescape'' m [(''commandstring'', PStr p)] st = (st', r)"
    by (cases "commandfactory cfg ''shellescape'' m [(''commandstring'', PStr p)] st")
  have "snd (commandfactory cfg ''shellescape'' m [(''commandstring'', PStr p)] st)
          = Inr \<lparr>cls = ExternalCommand,
                 attrs = Command_init ExternalCommand
                   (remaining [''commandstring'', ''spawn'', ''refocus'', ''in_thread'',
                      ''on_success'']
                     (setitem ''posthook'' (hooks_get cfg ''post_shellescape'')
                       (setitem ''prehook'' (hooks_get cfg ''pre_shellescape'')
                         (setitem ''commandstring'' (PStr p)
                           (setitem ''commandstring'' (PStr p)
                             (store st (Default Global ''shellescape'')))))))
                   (setitem ''on_success''
                      (kwarg (setitem ''posthook'' (hooks_get cfg ''post_shellescape'')
                       (setitem ''prehook'' (hooks_get cfg ''pre_shellescape'')
                         (setitem ''commandstring'' (PStr p)
                           (setitem ''commandstring'' (PStr p)
                             (store st (Default Global ''shellescape''))))))
                         ''on_success'' PNone)
                   (setitem ''in_thread''
                      (kwarg (setitem ''posthook'' (hooks_get cfg ''post_shellescape'')
                       (setitem ''prehook'' (hooks_get cfg ''pre_shellescape'')
                         (setitem ''commandstring'' (PStr p)
                           (setitem ''commandstring'' (PStr p)
                             (store st (Default Global ''shellescape''))))))
                         ''in_thread'' (PBool False))
                   (setitem ''refocus''
                      (kwarg (setitem ''posthook'' (hooks_get cfg ''post_shellescape'')
                       (setitem ''prehook'' (hooks_get cfg ''pre_shellescape'')
                         (setitem ''commandstring'' (PStr p)
                           (setitem ''commandstring'' (PStr p)
                             (store st (Default Global ''shellescape''))))))
                         ''refocus'' (PBool True))
                   (setitem ''spawn''
                      (kwarg (setitem ''posthook'' (hooks_get cfg ''post_shellescape'')
                       (setitem ''prehook'' (hooks_get cfg ''pre_shellescape'')
                         (setitem ''commandstring'' (PStr p)
                           (setitem ''commandstring'' (PStr p)
                             (store st (Default Global ''shellescape''))))))
                         ''spawn'' (PBool False))
                   (setitem ''commandstring'' (PStr p) [])))))\<rparr>"
    by (simp add: commandfactory_result lookup_shellescape outcome_def construct_def
          ExternalCommand_init_def map_of_setitem)
  then obtain c where r: "r = Inr c" and c: "cls c = ExternalCommand"
      and a: "map_of (attrs c) ''commandstring'' = Some (PStr p)"
    using cf by (simp add: Command_init_def map_of_setitem)
  show ?thesis using cf r c a by (simp add: return_command_def)
qed


text \<open>
  Claim C6 as stated fails on a line of one token: for \<^verbatim>\<open>!ls\<close> the command string
  is \<^verbatim>\<open>'ls '\<close>, with a blank at its end, and not what follows the \<^verbatim>\<open>!\<close>.
\<close>

theorem shellescape_single_token:
  "snd (interpret_commandline plain_config ''!ls'' Global loaded) =
     Inr (Some \<lparr>cls = ExternalCommand,
                attrs = [(''commandstring'', PStr ''ls ''), (''spawn'', PBool False),
                         (''refocus'', PBool True), (''in_thread'', PBool False),
                         (''on_success'', PNone), (''prehook'', PNone), (''posthook'', PNone),
                         (''undoable'', PBool False), (''help'', DocOf ExternalCommand)]\<rparr>)
   \<and> ''ls '' \<noteq> drop 1 ''!ls''"
proof -
  have p: "parse_cmdline ''!ls'' = Inr (''!ls'', [])"
    by (simp add: parse_cmdline_def split_once_def strip_def is_space_def)
  have r: "registered Global ''shellescape''" by (simp add: registered_def)
  have d: "store loaded (Default Global ''shellescape'') = []" by (simp add: loaded_def)
  show ?thesis
    using r
    by (simp add: interpret_commandline_eq [OF _ p] unfold_alias_def plain_config_def
          shellescape_shorthand_def startswith_def dispatch_def return_command_snd
          commandfactory_result lookup_shellescape outcome_def construct_def d
          ExternalCommand_init_def Command_init_def setitem_def kwarg_def remaining_def)
qed

text \<open>
  Claim C6, amended. When the line, stripped of the white space around it, starts with
  \<^verbatim>\<open>!\<close> and its first token is no alias, \<^verbatim>\<open>interpret_commandline\<close> returns an
  \<^verbatim>\<open>ExternalCommand\<close> (the class of \<^verbatim>\<open>shellescape\<close>) in every mode. Its command
  string is what follows the \<^verbatim>\<open>!\<close> in the stripped line when that contains a blank,
  and what follows the \<^verbatim>\<open>!\<close> with one blank appended when it does not.
\<close>

theorem shellescape_shorthand_dispatch:
  assumes s: "strip cmdline = CHR ''!'' # rest"
      and na: "aliases cfg (takeWhile (\<lambda>c. c \<noteq> CHR '' '') (strip cmdline)) = None"
  shows "\<exists>st' c. interpret_commandline cfg cmdline m st = (st', Inr (Some c)) \<and>
           cls c = ExternalCommand \<and>
           map_of (attrs c) ''commandstring''
             = Some (PStr (if CHR '' '' \<in> set rest then rest else rest @ '' ''))"
proof -
  have ne: "cmdline \<noteq> []" using s strip_nonempty [of cmdline] by simp
  define tok where "tok = CHR ''!'' # takeWhile (\<lambda>c. c \<noteq> CHR '' '') rest"
  define params where "params = drop 1 (dropWhile (\<lambda>c. c \<noteq> CHR '' '') rest)"
  have p: "parse_cmdline cmdline = Inr (tok, params)"
    by (simp add: parse_cmdline_eq s tok_def params_def)
  have ua: "unfold_alias cfg tok = tok"
    using na by (simp add: unfold_alias_def s tok_def)
  have sh: "shellescape_shorthand (tok, params)
              = (''shellescape'', if CHR '' '' \<in> set rest then rest else rest @ '' '')"
    using rejoin_at_blank [of rest]
    by (simp add: shellescape_shorthand_def startswith_def tok_def params_def)
  have r: "registered Global ''shellescape''" by (simp add: registered_def)
  have d: "\<And>q st1. dispatch cfg ''shellescape'' q m st1
                = return_command cfg ''shellescape'' m [(''commandstring'', PStr q)] st1"
    using r by (simp add: dispatch_def)
  show ?thesis
    using shellescape_command [of cfg m]
    by (simp add: interpret_commandline_eq [OF ne p] ua sh d)
qed

theorem shellescape_shorthand_dispatch_witness:
  "strip ''!ls -la'' = CHR ''!'' # ''ls -la'' \<and>
   aliases plain_config (takeWhile (\<lambda>c. c \<noteq> CHR '' '') (strip ''!ls -la'')) = None \<and>
   (\<exists>st' c. interpret_commandline plain_config ''!ls -la'' Global loaded = (st', Inr (Some c)) \<and>
       cls c = ExternalCommand \<and> map_of (attrs c) ''commandstring'' = Some (PStr ''ls -la''))"
proof -
  have s: "strip ''!ls -la'' = CHR ''!'' # ''ls -la''"
    by (simp add: strip_def is_space_def)
  have na: "aliases plain_config (takeWhile (\<lambda>c. c \<noteq> CHR '' '') (strip ''!ls -la'')) = None"
    by (simp add: plain_config_def)
  show ?thesis
    using s na shellescape_shorthand_dispatch [OF s na, of Global loaded] by simp
qed

text \<open>
  Claim C8. Alias substitution is applied once. When the first token of a line is an
  alias, the line is interpreted as its expansion is dispatched under no alias table at
  all; and the outcome is the same under every alias table that gives the first token
  that expansion, whatever it says about the expansion or any other name.
\<close>

theorem alias_unfolded_once:
  assumes ne: \<open>cmdline \<noteq> []\<close>
      and p: \<open>parse_cmdline cmdline = Inr (tok, params)\<close>
      and al: \<open>aliases cfg tok = Some expansion\<close>
  shows \<open>interpret_commandline cfg cmdline m st =
           (case shellescape_shorthand (expansion, params) of
              (cmd, params') \<Rightarrow>
                dispatch (cfg\<lparr>aliases := \<lambda>name. None\<rparr>) cmd params' m
                  (logging DEBUG ''mode:%s got commandline "%s"''
                     [PStr (mode_name m), PStr cmdline] st))
         \<and> (\<forall>als. als tok = Some expansion \<longrightarrow>
               interpret_commandline (cfg\<lparr>aliases := als\<rparr>) cmdline m st =
               interpret_commandline cfg cmdline m st)\<close>
  using al
  by (simp add: interpret_commandline_eq [OF ne p] unfold_alias_def dispatch_ignores_aliases)

theorem alias_unfolded_once_witness:
  "aliases chained_aliases ''q'' = Some ''quit'' \<and>
   aliases chained_aliases ''quit'' = Some ''exit'' \<and>
   parse_cmdline ''q'' = Inr (''q'', []) \<and>
   snd (interpret_commandline chained_aliases ''q'' Global loaded) = Inr None \<and>
   logged (fst (interpret_commandline chained_aliases ''q'' Global loaded)) ! 1
     = (DEBUG, ''unknown command: %s'', [PStr ''quit''])"
proof -
  have a1: "aliases chained_aliases ''q'' = Some ''quit''"
    by (simp add: chained_aliases_def)
  have a2: "aliases chained_aliases ''quit'' = Some ''exit''"
    by (simp add: chained_aliases_def)
  have p: "parse_cmdline ''q'' = Inr (''q'', [])"
    by (simp add: parse_cmdline_def split_once_def strip_def is_space_def)
  have ne: "''q'' \<noteq> []" by simp
  have r: "\<not> registered Global ''quit''" by (simp add: registered_def)
  note once = alias_unfolded_once [OF ne p a1, of Global loaded, THEN conjunct1]
  have "snd (interpret_commandline chained_aliases ''q'' Global loaded) = Inr None \<and>
   logged (fst (interpret_commandline chained_aliases ''q'' Global loaded)) ! 1
     = (DEBUG, ''unknown command: %s'', [PStr ''quit''])"
    unfolding once using r
    by (simp add: shellescape_shorthand_def startswith_def dispatch_def logging_def
          loaded_def)
  then show ?thesis using a1 a2 p by simp
qed

subsection \<open>Commands without parameters\<close>

lemma no_parameter_names:
  assumes "cmd \<in> set no_parameter_commands" and "cmd \<noteq> ''compose''" and "cmd \<noteq> ''retag''"
  shows "cmd \<in> {''exit'', ''flush'', ''pyshell'', ''taglist'', ''close'', ''openfocussed'',
      ''closefocussed'', ''bnext'', ''bprevious'', ''refresh'', ''bufferlist'',
      ''refineprompt'', ''reply'', ''forward'', ''groupreply'', ''bounce'', ''openthread'',
      ''send'', ''reedit'', ''select'', ''retagprompt''}"
  using assms by (simp add: no_parameter_commands_def)

lemma no_parameter_not_special:
  assumes "cmd \<in> set no_parameter_commands" and "cmd \<noteq> ''compose''" and "cmd \<noteq> ''retag''"
  shows "cmd \<notin> {''search'', ''prompt'', ''refine'', ''subject'', ''shellescape'', ''to'',
      ''toggletag'', ''fold'', ''unfold'', ''edit''} \<and> \<not> startswith cmd ''!''"
  using no_parameter_names [OF assms]
  by (elim insertE emptyE) (simp_all add: startswith_def)

lemma dispatch_no_parameter:
  assumes "cmd \<in> set no_parameter_commands" and "cmd \<noteq> ''compose''" and "cmd \<noteq> ''retag''"
  shows "dispatch cfg cmd params m st =
           (if \<not> registered m cmd \<and> \<not> registered Global cmd
            then (logging DEBUG ''unknown command: %s'' [PStr cmd] st, Inr None)
            else if params = [] then return_command cfg cmd m [] st
            else (st, Inr None))"
  using no_parameter_not_special [OF assms] assms
  by (simp add: dispatch_def)

lemma lookup_class_names:
  assumes "lookup cmd m = Some (c, a)"
      and "c \<in> {SearchCommand, ExternalCommand, EditCommand, ToggleThreadTagCommand,
                EnvelopeSetCommand}"
  shows "cmd \<in> {''search'', ''shellescape'', ''edit'', ''toggletag'', ''subject'', ''to''}"
  using assms
  by (cases m) (auto simp: lookup_def split: if_splits)

lemma construct_total:
  assumes "c \<notin> {SearchCommand, ExternalCommand, EditCommand, ToggleThreadTagCommand,
                EnvelopeSetCommand}"
  shows "\<exists>at. construct cfg c kw = Inr \<lparr>cls = c, attrs = at\<rparr>"
  using assms by (cases c) (simp_all add: construct_def Let_def)


lemma no_parameter_command:
  assumes grp: "cmd \<in> set no_parameter_commands" "cmd \<noteq> ''compose''" "cmd \<noteq> ''retag''"
      and lk: "lookup cmd m = Some (c, a)"
  shows "\<exists>at. snd (return_command cfg cmd m [] st) = Inr (Some \<lparr>cls = c, attrs = at\<rparr>)"
proof -
  have "cmd \<notin> {''search'', ''shellescape'', ''edit'', ''toggletag'', ''subject'', ''to''}"
    using no_parameter_names [OF grp] by (elim insertE emptyE) simp_all
  then have "c \<notin> {SearchCommand, ExternalCommand, EditCommand, ToggleThreadTagCommand,
                EnvelopeSetCommand}"
    using lookup_class_names [OF lk] by blast
  then obtain at where
    "construct cfg c
       (setitem ''posthook'' (hooks_get cfg (''post_'' @ cmd))
         (setitem ''prehook'' (hooks_get cfg (''pre_'' @ cmd)) (store st a)))
       = Inr \<lparr>cls = c, attrs = at\<rparr>"
    using construct_total by blast
  then show ?thesis
    by (simp add: return_command_snd commandfactory_result lk)
qed

text \<open>
  Claim C7 as stated fails for two names of the list that the last \<^verbatim>\<open>elif\<close> tests,
  \<^verbatim>\<open>compose\<close> and \<^verbatim>\<open>retag\<close>: branches earlier in the chain take them, with the
  remainder as a parameter. The line \<^verbatim>\<open>compose bob\<close> yields a command.
\<close>

theorem compose_takes_parameter:
  "''compose'' \<in> set no_parameter_commands \<and>
   snd (interpret_commandline plain_config ''compose bob'' Global loaded) =
     Inr (Some \<lparr>cls = ComposeCommand,
                attrs = [(''mail'', Opaque ''MIMEMultipart with one empty text part''),
                         (''prehook'', PNone), (''posthook'', PNone),
                         (''undoable'', PBool False), (''help'', DocOf ComposeCommand)]\<rparr>)"
proof -
  have p: "parse_cmdline ''compose bob'' = Inr (''compose'', ''bob'')"
    by (simp add: parse_cmdline_def split_once_def strip_def is_space_def)
  have r: "registered Global ''compose''" by (simp add: registered_def)
  have lk: "lookup ''compose'' Global = Some (ComposeCommand, Default Global ''compose'')"
    by (simp add: lookup_def)
  have d: "store loaded (Default Global ''compose'') = []" by (simp add: loaded_def)
  have g: "''compose'' \<in> set no_parameter_commands" by (simp add: no_parameter_commands_def)
  have "snd (interpret_commandline plain_config ''compose bob'' Global loaded) =
     Inr (Some \<lparr>cls = ComposeCommand,
                attrs = [(''mail'', Opaque ''MIMEMultipart with one empty text part''),
                         (''prehook'', PNone), (''posthook'', PNone),
                         (''undoable'', PBool False), (''help'', DocOf ComposeCommand)]\<rparr>)"
    using r
    by (simp add: interpret_commandline_eq [OF _ p] unfold_alias_def plain_config_def
          shellescape_shorthand_def startswith_def dispatch_def return_command_snd
          commandfactory_result lk outcome_def construct_def d
          Command_init_def setitem_def kwarg_def remaining_def)
  then show ?thesis using g by simp
qed

text \<open>
  Claim C7, amended. For a name of that list other than \<^verbatim>\<open>compose\<close> and
  \<^verbatim>\<open>retag\<close> (the name being the first token after alias substitution):
  a non-empty remainder yields nothing; a name that neither the mode nor the global
  table holds yields nothing; and an empty remainder with a name that resolves yields a
  command of the class the registry gives the name.
\<close>

theorem no_parameter_dispatch:
  assumes p: "parse_cmdline cmdline = Inr (tok, params)"
      and ua: "unfold_alias cfg tok = cmd"
      and grp: "cmd \<in> set no_parameter_commands" "cmd \<noteq> ''compose''" "cmd \<noteq> ''retag''"
  shows "(params \<noteq> [] \<longrightarrow> snd (interpret_commandline cfg cmdline m st) = Inr None) \<and>
         (\<not> registered m cmd \<and> \<not> registered Global cmd
            \<longrightarrow> snd (interpret_commandline cfg cmdline m st) = Inr None) \<and>
         (\<forall>c a. cmdline \<noteq> [] \<and> params = [] \<and> lookup cmd m = Some (c, a)
            \<longrightarrow> (\<exists>at. snd (interpret_commandline cfg cmdline m st)
                         = Inr (Some \<lparr>cls = c, attrs = at\<rparr>)))"
proof (cases "cmdline = []")
  case True
  then have "params = []"
    using p by (simp add: parse_cmdline_eq strip_def)
  then show ?thesis using True by (simp add: interpret_commandline_def)
next
  case False
  have sh: "shellescape_shorthand (cmd, params) = (cmd, params)"
    using no_parameter_not_special [OF grp] by (simp add: shellescape_shorthand_def)
  obtain st1 where i: "interpret_commandline cfg cmdline m st = dispatch cfg cmd params m st1"
    using interpret_commandline_eq [OF False p, of cfg m st] ua sh by simp
  have d: "dispatch cfg cmd params m st1 =
           (if \<not> registered m cmd \<and> \<not> registered Global cmd
            then (logging DEBUG ''unknown command: %s'' [PStr cmd] st1, Inr None)
            else if params = [] then return_command cfg cmd m [] st1
            else (st1, Inr None))"
    by (rule dispatch_no_parameter [OF grp])
  have a: "params \<noteq> [] \<longrightarrow> snd (interpret_commandline cfg cmdline m st) = Inr None"
    using i d by simp
  have b: "\<not> registered m cmd \<and> \<not> registered Global cmd
            \<longrightarrow> snd (interpret_commandline cfg cmdline m st) = Inr None"
    using i d by simp
  have c: "\<forall>c a. cmdline \<noteq> [] \<and> params = [] \<and> lookup cmd m = Some (c, a)
            \<longrightarrow> (\<exists>at. snd (interpret_commandline cfg cmdline m st)
                         = Inr (Some \<lparr>cls = c, attrs = at\<rparr>))"
  proof (intro allI impI)
    fix c a
    assume h: "cmdline \<noteq> [] \<and> params = [] \<and> lookup cmd m = Some (c, a)"
    then have pe: "params = []" and lk: "lookup cmd m = Some (c, a)" by simp_all
    have vis: "\<not> (\<not> registered m cmd \<and> \<not> registered Global cmd)"
      using lookup_registered [of cmd m] lk by simp
    have "interpret_commandline cfg cmdline m st = return_command cfg cmd m [] st1"
      unfolding i d using pe vis by (simp only: if_False if_True refl)
    then show "\<exists>at. snd (interpret_commandline cfg cmdline m st)
                         = Inr (Some \<lparr>cls = c, attrs = at\<rparr>)"
      using no_parameter_command [OF grp, of m c a cfg st1] h by simp
  qed
  show ?thesis using a b c by blast
qed

theorem no_parameter_dispatch_witness:
  "parse_cmdline ''exit extra-garbage'' = Inr (''exit'', ''extra-garbage'') \<and>
   unfold_alias plain_config ''exit'' = ''exit'' \<and>
   ''exit'' \<in> set no_parameter_commands \<and>
   snd (interpret_commandline plain_config ''exit extra-garbage'' Global loaded) = Inr None \<and>
   parse_cmdline ''exit'' = Inr (''exit'', []) \<and>
   lookup ''exit'' Thread = Some (ExitCommand, Default Global ''exit'') \<and>
   (\<exists>at. snd (interpret_commandline plain_config ''exit'' Thread loaded)
            = Inr (Some \<lparr>cls = ExitCommand, attrs = at\<rparr>))"
proof -
  have p1: "parse_cmdline ''exit extra-garbage'' = Inr (''exit'', ''extra-garbage'')"
    by (simp add: parse_cmdline_def split_once_def strip_def is_space_def)
  have p2: "parse_cmdline ''exit'' = Inr (''exit'', [])"
    by (simp add: parse_cmdline_def split_once_def strip_def is_space_def)
  have ua: "unfold_alias plain_config ''exit'' = ''exit''"
    by (simp add: unfold_alias_def plain_config_def)
  have g: "''exit'' \<in> set no_parameter_commands" by (simp add: no_parameter_commands_def)
  have n1: "''exit'' \<noteq> ''compose''" and n2: "''exit'' \<noteq> ''retag''" by simp_all
  have lk: "lookup ''exit'' Thread = Some (ExitCommand, Default Global ''exit'')"
    by (simp add: lookup_def)
  have a: "snd (interpret_commandline plain_config ''exit extra-garbage'' Global loaded)
             = Inr None"
    using no_parameter_dispatch [OF p1 ua g n1 n2, of Global loaded] by simp
  have b: "\<exists>at. snd (interpret_commandline plain_config ''exit'' Thread loaded)
            = Inr (Some \<lparr>cls = ExitCommand, attrs = at\<rparr>)"
    using no_parameter_dispatch [OF p2 ua g n1 n2, of Thread loaded] lk by simp
  show ?thesis using p1 p2 ua g lk a b by blast
qed

subsection \<open>The retrying flush\<close>

lemma FlushCommand_apply_locked:
  "flush_script u = Some DatabaseLockedError # later \<Longrightarrow>
     FlushCommand_apply cfg u =
       Inr (u\<lparr>flush_script := later,
              alarms := alarms u @ [(flush_retry_timeout cfg, ReapplyFlush)],
              notifications := notifications u @
                [''index locked, will try again in '' @ decimal (flush_retry_timeout cfg)
                   @ '' secs''],
              updates := Suc (updates u)\<rparr>)"
  by (simp add: FlushCommand_apply_def dbman_flush_def after_failed_flush_def Let_def)

lemma FlushCommand_apply_commits:
  "flush_script u = None # later \<Longrightarrow>
     FlushCommand_apply cfg u = Inr (u\<lparr>flush_script := later, commits := Suc (commits u)\<rparr>)"
  by (simp add: FlushCommand_apply_def dbman_flush_def)

lemma FlushCommand_apply_catches:
  "FlushCommand_apply cfg u \<noteq> Inl DatabaseLockedError"
  by (simp add: FlushCommand_apply_def dbman_flush_def Let_def
        split: list.splits option.splits)

lemma mainloop_retries:
  "flush_script u = replicate n (Some DatabaseLockedError) @ None # later \<Longrightarrow>
   alarms u = [(d, ReapplyFlush)] \<Longrightarrow> n < k \<Longrightarrow>
     \<exists>u'. mainloop cfg k u = Some (Inr u') \<and> commits u' = Suc (commits u) \<and>
          alarms u' = [] \<and> flush_script u' = later \<and>
          length (notifications u') = length (notifications u) + n \<and>
          updates u' = updates u + n"
proof (induction n arbitrary: u k d)
  case 0
  then obtain k' where k: "k = Suc k'" by (cases k) auto
  have a: "FlushCommand_apply cfg (u\<lparr>alarms := []\<rparr>)
             = Inr (u\<lparr>alarms := [], flush_script := later, commits := Suc (commits u)\<rparr>)"
    using 0 by (simp add: FlushCommand_apply_commits)
  show ?case
    using 0 a by (simp add: k)
next
  case (Suc n)
  then obtain k' where k: "k = Suc k'" and nk: "n < k'" by (cases k) auto
  define u1 where "u1 = u\<lparr>alarms := [(flush_retry_timeout cfg, ReapplyFlush)],
              flush_script := replicate n (Some DatabaseLockedError) @ None # later,
              notifications := notifications u @
                [''index locked, will try again in '' @ decimal (flush_retry_timeout cfg)
                   @ '' secs''],
              updates := Suc (updates u)\<rparr>"
  have a: "FlushCommand_apply cfg (u\<lparr>alarms := []\<rparr>) = Inr u1"
    using Suc.prems by (simp add: FlushCommand_apply_locked u1_def)
  have s: "flush_script u1 = replicate n (Some DatabaseLockedError) @ None # later"
    and al: "alarms u1 = [(flush_retry_timeout cfg, ReapplyFlush)]"
    by (simp_all add: u1_def)
  obtain u' where m: "mainloop cfg k' u1 = Some (Inr u')"
    and r: "commits u' = Suc (commits u1)" "alarms u' = []" "flush_script u' = later"
      "length (notifications u') = length (notifications u1) + n"
      "updates u' = updates u1 + n"
    using Suc.IH [OF s al nk] by blast
  have "mainloop cfg k u = Some (Inr u')"
    using Suc.prems a m by (simp add: k)
  then show ?case using r by (simp add: u1_def)
qed

text \<open>
  Claim C5. \<^verbatim>\<open>FlushCommand.apply\<close> never lets \<^verbatim>\<open>DatabaseLockedError\<close> out. When
  the store is locked it returns normally, having registered the alarm that applies the
  command again after the configured delay, notified the user and updated the screen.
  When the store is locked on the first \<open>n\<close> attempts and commits on the next, one call
  of \<^verbatim>\<open>apply\<close> followed by a main loop that fires \<open>n\<close> alarms or more ends with the
  write committed once, no alarm pending and \<open>n\<close> notifications shown; the witness is
  the case of two locked attempts.
\<close>

theorem flush_retries_until_committed:
  assumes s: "flush_script u = replicate n (Some DatabaseLockedError) @ None # later"
      and al: "alarms u = []"
      and nk: "n \<le> k"
  shows "(\<forall>v. FlushCommand_apply cfg v \<noteq> Inl DatabaseLockedError) \<and>
         (\<forall>v rest. flush_script v = Some DatabaseLockedError # rest \<longrightarrow>
            FlushCommand_apply cfg v =
              Inr (v\<lparr>flush_script := rest,
                     alarms := alarms v @ [(flush_retry_timeout cfg, ReapplyFlush)],
                     notifications := notifications v @
                       [''index locked, will try again in ''
                          @ decimal (flush_retry_timeout cfg) @ '' secs''],
                     updates := Suc (updates v)\<rparr>)) \<and>
         (\<exists>u1 u'. FlushCommand_apply cfg u = Inr u1 \<and> mainloop cfg k u1 = Some (Inr u') \<and>
            commits u' = Suc (commits u) \<and> alarms u' = [] \<and> flush_script u' = later \<and>
            length (notifications u') = length (notifications u) + n)"
proof -
  have run: "\<exists>u1 u'. FlushCommand_apply cfg u = Inr u1 \<and> mainloop cfg k u1 = Some (Inr u') \<and>
            commits u' = Suc (commits u) \<and> alarms u' = [] \<and> flush_script u' = later \<and>
            length (notifications u') = length (notifications u) + n"
  proof (cases n)
    case 0
    have "FlushCommand_apply cfg u = Inr (u\<lparr>flush_script := later, commits := Suc (commits u)\<rparr>)"
      using s 0 by (simp add: FlushCommand_apply_commits)
    then show ?thesis using al 0 by simp
  next
    case (Suc j)
    define u1 where "u1 = u\<lparr>flush_script := replicate j (Some DatabaseLockedError) @ None # later,
              alarms := [(flush_retry_timeout cfg, ReapplyFlush)],
              notifications := notifications u @
                [''index locked, will try again in '' @ decimal (flush_retry_timeout cfg)
                   @ '' secs''],
              updates := Suc (updates u)\<rparr>"
    have a: "FlushCommand_apply cfg u = Inr u1"
      using s al Suc by (simp add: FlushCommand_apply_locked u1_def)
    have s1: "flush_script u1 = replicate j (Some DatabaseLockedError) @ None # later"
      and al1: "alarms u1 = [(flush_retry_timeout cfg, ReapplyFlush)]"
      by (simp_all add: u1_def)
    have jk: "j < k" using nk Suc by simp
    obtain u' where "mainloop cfg k u1 = Some (Inr u')"
      "commits u' = Suc (commits u1)" "alarms u' = []" "flush_script u' = later"
      "length (notifications u') = length (notifications u1) + j"
      using mainloop_retries [OF s1 al1 jk] by blast
    then show ?thesis using a Suc by (simp add: u1_def)
  qed
  show ?thesis
    using run FlushCommand_apply_catches FlushCommand_apply_locked by blast
qed

theorem flush_retries_until_committed_witness:
  "(\<exists>u1. FlushCommand_apply plain_config
            \<lparr>flush_script = [Some DatabaseLockedError, Some DatabaseLockedError, None],
             commits = 0, alarms = [], notifications = [], updates = 0\<rparr> = Inr u1 \<and>
          u1 = \<lparr>flush_script = [Some DatabaseLockedError, None], commits = 0,
                alarms = [(5, ReapplyFlush)],
                notifications = [''index locked, will try again in 5 secs''],
                updates = 1\<rparr> \<and>
          mainloop plain_config 2 u1 =
            Some (Inr \<lparr>flush_script = [], commits = 1, alarms = [],
                       notifications = [''index locked, will try again in 5 secs'',
                                        ''index locked, will try again in 5 secs''],
                       updates = 2\<rparr>))"
proof -
  define u0 where "u0 = \<lparr>flush_script = [Some DatabaseLockedError, Some DatabaseLockedError, None],
             commits = 0, alarms = [], notifications = [], updates = 0\<rparr>"
  have s: "flush_script u0 = replicate 2 (Some DatabaseLockedError) @ None # []"
    by (simp add: u0_def numeral_2_eq_2)
  have al: "alarms u0 = []" by (simp add: u0_def)
  have d: "decimal 5 = ''5''" by code_simp
  have t: "flush_retry_timeout plain_config = 5" by (simp add: plain_config_def)
  obtain u1 u' where a: "FlushCommand_apply plain_config u0 = Inr u1"
    and m: "mainloop plain_config 2 u1 = Some (Inr u')"
    and c: "commits u' = Suc (commits u0)" "alarms u' = []" "flush_script u' = []"
    using flush_retries_until_committed [OF s al order_refl, of plain_config] by blast
  have a1: "FlushCommand_apply plain_config u0 =
          Inr \<lparr>flush_script = [Some DatabaseLockedError, None], commits = 0,
                alarms = [(5, ReapplyFlush)],
                notifications = [''index locked, will try again in 5 secs''],
                updates = 1\<rparr>"
    by (simp add: FlushCommand_apply_locked u0_def d t)
  have m1: "mainloop plain_config 2 \<lparr>flush_script = [Some DatabaseLockedError, None], commits = 0,
                alarms = [(5, ReapplyFlush)],
                notifications = [''index locked, will try again in 5 secs''],
                updates = 1\<rparr> = Some (Inr \<lparr>flush_script = [], commits = 1, alarms = [],
                       notifications = [''index locked, will try again in 5 secs'',
                                        ''index locked, will try again in 5 secs''],
                       updates = 2\<rparr>)"
    by (simp add: numeral_2_eq_2 FlushCommand_apply_locked FlushCommand_apply_commits d t)
  show ?thesis using a m a1 m1 unfolding u0_def by simp
qed

end
